theory Spec2Isabelle
  imports Complex_Main "HOL-Library.Multiset" "HOL-Library.Word"
begin

section \<open>Strings\<close>

text \<open>
  A JavaScript string is modelled as a \<^typ>\<open>string\<close>: a list of code units, each below 256
  (the Latin-1 range). \<open>length\<close> is then JavaScript's \<open>.length\<close>. The white space of
  \<open>trim()\<close> and of the regular expression class \<open>\\s\<close> in that range is TAB, LF, VT, FF, CR,
  SPACE and NBSP; \<open>toLowerCase()\<close> maps A-Z and the Latin-1 capitals (0xC0-0xDE, without the
  multiplication sign 0xD7) to the code unit 32 above, which for these code units is the
  same code unit with bit 5 set. Beyond that range JavaScript has letters whose lower case
  is longer than the letter (U+0130 becomes two code units); such strings are outside this
  model, and no statement below rests on lower case keeping the length.
\<close>

definition isWhiteSpace :: "char \<Rightarrow> bool" where
  "isWhiteSpace c = (of_char c \<in> {9, 10, 11, 12, 13, 32, 160 :: nat})"

definition trim :: "string \<Rightarrow> string" where
  "trim s = rev (dropWhile isWhiteSpace (rev (dropWhile isWhiteSpace s)))"

definition lowerChar :: "char \<Rightarrow> char" where
  "lowerChar c =
     (let n = (of_char c :: nat)
      in if (65 \<le> n \<and> n \<le> 90) \<or> (192 \<le> n \<and> n \<le> 222 \<and> n \<noteq> 215)
         then (case c of Char b0 b1 b2 b3 b4 b5 b6 b7 \<Rightarrow> Char b0 b1 b2 b3 b4 True b6 b7)
         else c)"

definition toLowerCase :: "string \<Rightarrow> string" where
  "toLowerCase s = map lowerChar s"

text \<open>
  \<open>s.replace(/[P]+/g, r)\<close>: every maximal run of code units satisfying \<open>P\<close> becomes the
  single code unit \<open>r\<close>. The flag says whether the previous code unit was part of a run.
\<close>

fun replaceRuns :: "(char \<Rightarrow> bool) \<Rightarrow> char \<Rightarrow> bool \<Rightarrow> string \<Rightarrow> string" where
  "replaceRuns P r inRun [] = []"
| "replaceRuns P r inRun (c # cs) =
     (if P c then (if inRun then replaceRuns P r True cs else r # replaceRuns P r True cs)
      else c # replaceRuns P r False cs)"

definition isSlugChar :: "char \<Rightarrow> bool" where
  "isSlugChar c =
     (let n = (of_char c :: nat) in (97 \<le> n \<and> n \<le> 122) \<or> (48 \<le> n \<and> n \<le> 57))"

definition isHyphen :: "char \<Rightarrow> bool" where
  "isHyphen c = (c = CHR ''-'')"

definition isQuote :: "char \<Rightarrow> bool" where
  "isQuote c = (of_char c \<in> {39, 34 :: nat})"

definition slugify :: "string \<Rightarrow> string" where
  "slugify input =
     (let s1 = toLowerCase (trim input);
          s2 = filter (\<lambda>c. \<not> isQuote c) s1;
          s3 = replaceRuns (\<lambda>c. \<not> isSlugChar c) (CHR ''-'') False s2
      in rev (dropWhile isHyphen (rev (dropWhile isHyphen s3))))"

definition normalizeName :: "string \<Rightarrow> string" where
  "normalizeName s = replaceRuns isWhiteSpace (CHR '' '') False (trim s)"

text \<open>\<open>s.split(d)\<close> for a separator of one code unit; the result is never empty.\<close>

fun splitOn :: "char \<Rightarrow> string \<Rightarrow> string list" where
  "splitOn d [] = [[]]"
| "splitOn d (c # cs) =
     (if c = d then [] # splitOn d cs
      else (case splitOn d cs of [] \<Rightarrow> [[c]] | p # ps \<Rightarrow> (c # p) # ps))"

section \<open>JSON values\<close>

text \<open>
  What \<open>JSON.parse\<close> yields. A number is the value of the parsed double, a rational. An
  object is the list of its members in source order; reading a property takes the last
  member of that name, as the parser lets a later duplicate overwrite an earlier one.
\<close>

datatype json =
    JNull
  | JBool bool
  | JNum rat
  | JStr string
  | JArr "json list"
  | JObj "(string \<times> json) list"

text \<open>
  \<open>v?.k\<close> and, on a value that is not \<open>null\<close>, \<open>v.k\<close>, for the property names used in
  this program (none of them is a built-in property of a string, number, boolean or array):
  \<open>None\<close> is \<open>undefined\<close>.
\<close>

fun getProp :: "string \<Rightarrow> json \<Rightarrow> json option" where
  "getProp k (JObj kvs) = map_of (rev kvs) k"
| "getProp k _ = None"

fun isArray :: "json option \<Rightarrow> bool" where
  "isArray (Some (JArr xs)) = True"
| "isArray _ = False"

section \<open>Catalog data\<close>

text \<open>
  Modelled from the spec: the types \<open>Category\<close>, \<open>Product\<close> and \<open>CatalogData\<close> of
  \<open>types.ts\<close>, a file that is not among the sources; the fields are those the data model
  names and the code reads and writes. The fields \<open>id\<close>, \<open>name\<close> and \<open>createdAt\<close> of a category
  are \<open>cid\<close>, \<open>cname\<close> and \<open>ccreatedAt\<close> here, those of a product \<open>pid\<close>, \<open>pname\<close> and
  \<open>pcreatedAt\<close>. A badge variant is a string at run time: the form action casts the raw
  form value to the type.
\<close>

record Category =
  cid :: string
  cname :: string
  ccreatedAt :: string

record Product =
  pid :: string
  categoryId :: string
  pname :: string
  description :: string
  priceLabel :: string
  imageUrl :: string
  imageAlt :: string
  badgeText :: "string option"
  badgeVariant :: "string option"
  pcreatedAt :: string

record CatalogData =
  version :: rat
  updatedAt :: string
  categories :: "Category list"
  products :: "Product list"

text \<open>
  The JSON value of a typed document: what \<open>JSON.parse\<close> reads back from the text that
  \<open>JSON.stringify\<close> writes for it. A property that is \<open>undefined\<close> is left out.
\<close>

definition categoryJson :: "Category \<Rightarrow> json" where
  "categoryJson c =
     JObj [(''id'', JStr (cid c)), (''name'', JStr (cname c)),
           (''createdAt'', JStr (ccreatedAt c))]"

definition optMember :: "string \<Rightarrow> string option \<Rightarrow> (string \<times> json) list" where
  "optMember k v = (case v of None \<Rightarrow> [] | Some s \<Rightarrow> [(k, JStr s)])"

definition productJson :: "Product \<Rightarrow> json" where
  "productJson p =
     JObj ([(''id'', JStr (pid p)), (''categoryId'', JStr (categoryId p)),
            (''name'', JStr (pname p)), (''description'', JStr (description p)),
            (''priceLabel'', JStr (priceLabel p)), (''imageUrl'', JStr (imageUrl p)),
            (''imageAlt'', JStr (imageAlt p))]
           @ optMember ''badgeText'' (badgeText p)
           @ optMember ''badgeVariant'' (badgeVariant p)
           @ [(''createdAt'', JStr (pcreatedAt p))])"

definition catalogJson :: "CatalogData \<Rightarrow> json" where
  "catalogJson d =
     JObj [(''version'', JNum (version d)), (''updatedAt'', JStr (updatedAt d)),
           (''categories'', JArr (map categoryJson (categories d))),
           (''products'', JArr (map productJson (products d)))]"

text \<open>
  The cast \<open>parsed as CatalogData\<close>. TypeScript checks nothing at run time; the model
  reads the members by name and accepts the value when it is exactly the JSON value of the
  typed document so read, that is, when the file is one this program writes. On any other
  value the cast gives \<open>None\<close>.
\<close>

definition strProp :: "string \<Rightarrow> json \<Rightarrow> string" where
  "strProp k j = (case getProp k j of Some (JStr s) \<Rightarrow> s | _ \<Rightarrow> [])"

definition optStrProp :: "string \<Rightarrow> json \<Rightarrow> string option" where
  "optStrProp k j = (case getProp k j of Some (JStr s) \<Rightarrow> Some s | _ \<Rightarrow> None)"

definition asCategory :: "json \<Rightarrow> Category option" where
  "asCategory j =
     (let c = \<lparr> cid = strProp ''id'' j, cname = strProp ''name'' j,
                 ccreatedAt = strProp ''createdAt'' j \<rparr>
      in if categoryJson c = j then Some c else None)"

definition asProduct :: "json \<Rightarrow> Product option" where
  "asProduct j =
     (let p = \<lparr> pid = strProp ''id'' j, categoryId = strProp ''categoryId'' j,
                 pname = strProp ''name'' j, description = strProp ''description'' j,
                 priceLabel = strProp ''priceLabel'' j, imageUrl = strProp ''imageUrl'' j,
                 imageAlt = strProp ''imageAlt'' j, badgeText = optStrProp ''badgeText'' j,
                 badgeVariant = optStrProp ''badgeVariant'' j,
                 pcreatedAt = strProp ''createdAt'' j \<rparr>
      in if productJson p = j then Some p else None)"

fun those_map :: "('a \<Rightarrow> 'b option) \<Rightarrow> 'a list \<Rightarrow> 'b list option" where
  "those_map f [] = Some []"
| "those_map f (x # xs) =
     (case f x of None \<Rightarrow> None
      | Some y \<Rightarrow> (case those_map f xs of None \<Rightarrow> None | Some ys \<Rightarrow> Some (y # ys)))"

definition asCatalogData :: "json \<Rightarrow> CatalogData option" where
  "asCatalogData j =
     (case (getProp ''version'' j, getProp ''updatedAt'' j,
            getProp ''categories'' j, getProp ''products'' j) of
        (Some (JNum v), Some (JStr u), Some (JArr cs), Some (JArr ps)) \<Rightarrow>
          (case (those_map asCategory cs, those_map asProduct ps) of
             (Some cs', Some ps') \<Rightarrow>
               (let d = \<lparr> version = v, updatedAt = u, categories = cs', products = ps' \<rparr>
                in if catalogJson d = j then Some d else None)
           | _ \<Rightarrow> None)
      | _ \<Rightarrow> None)"

section \<open>Catalog store\<close>

text \<open>
  The file at the canonical path, as \<open>readCatalog\<close> meets it: \<open>fs.readFile\<close> either
  rejects with an error code or gives the text, and \<open>JSON.parse\<close> of the text either throws
  a \<open>SyntaxError\<close> or gives a value. \<open>renames\<close> counts the renames over the canonical
  path, one for every completed \<open>writeCatalog\<close>.
\<close>

datatype content = NotJson | Json json

datatype diskFile = ReadFails string | ReadGives content

record fsys =
  canonical :: diskFile
  renames :: nat

datatype exn =
    ErrnoException string
  | SyntaxError
  | Error string
  | OutsideType

definition defaultCatalog :: "string \<Rightarrow> CatalogData" where
  "defaultCatalog nowIso = \<lparr> version = 1, updatedAt = nowIso, categories = [], products = [] \<rparr>"

text \<open>
  \<open>readCatalog\<close> without the cast: the value it returns. The \<open>catch\<close> clause sees the
  rejected read and the \<open>SyntaxError\<close> alike and returns the default only for the code
  \<open>ENOENT\<close>; a \<open>SyntaxError\<close> has no code.
\<close>

definition shapeOk :: "json \<Rightarrow> bool" where
  "shapeOk parsed =
     (\<not> (getProp ''version'' parsed \<noteq> Some (JNum 1)
         \<or> \<not> isArray (getProp ''categories'' parsed)
         \<or> \<not> isArray (getProp ''products'' parsed)))"

definition catchRead :: "string \<Rightarrow> exn \<Rightarrow> exn + json" where
  "catchRead nowIso err =
     (case err of
        ErrnoException code \<Rightarrow>
          if code = ''ENOENT'' then Inr (catalogJson (defaultCatalog nowIso)) else Inl err
      | _ \<Rightarrow> Inl err)"

definition readCatalogJson :: "string \<Rightarrow> fsys \<Rightarrow> exn + json" where
  "readCatalogJson nowIso fs =
     (case canonical fs of
        ReadFails code \<Rightarrow> catchRead nowIso (ErrnoException code)
      | ReadGives NotJson \<Rightarrow> catchRead nowIso SyntaxError
      | ReadGives (Json parsed) \<Rightarrow>
          if \<not> shapeOk parsed then Inr (catalogJson (defaultCatalog nowIso))
          else Inr parsed)"

text \<open>
  \<open>readCatalog\<close> as its callers use it, at the type \<open>CatalogData\<close>. \<open>OutsideType\<close>
  stands for a document that passes the shape check and is not a value of that type; what
  the callers do with such a document is not modelled.
\<close>

definition readCatalog :: "string \<Rightarrow> fsys \<Rightarrow> exn + CatalogData" where
  "readCatalog nowIso fs =
     (case readCatalogJson nowIso fs of
        Inl e \<Rightarrow> Inl e
      | Inr j \<Rightarrow> (case asCatalogData j of None \<Rightarrow> Inl OutsideType | Some d \<Rightarrow> Inr d))"

text \<open>
  \<open>writeCatalog\<close>: the directory is made, the text is written to the temporary path and
  renamed over the canonical path. The file system is taken to accept the three calls.
\<close>

definition writeCatalog :: "CatalogData \<Rightarrow> fsys \<Rightarrow> fsys" where
  "writeCatalog next fs =
     fs \<lparr> canonical := ReadGives (Json (catalogJson next)), renames := renames fs + 1 \<rparr>"

text \<open>The file that holds the document \<open>d\<close>, as \<open>writeCatalog\<close> leaves it.\<close>

definition stored :: "CatalogData \<Rightarrow> diskFile" where
  "stored d = ReadGives (Json (catalogJson d))"

text \<open>
  The shape failure in the words of the specification: the version is not 1, or
  \<open>categories\<close> or \<open>products\<close> is not list-typed. A value that is not an object has none
  of the three members.
\<close>

definition specMalformed :: "json \<Rightarrow> bool" where
  "specMalformed j =
     (case j of
        JObj kvs \<Rightarrow>
          (case map_of (rev kvs) ''version'' of Some (JNum v) \<Rightarrow> v \<noteq> 1 | _ \<Rightarrow> True)
          \<or> (case map_of (rev kvs) ''categories'' of Some (JArr xs) \<Rightarrow> False | _ \<Rightarrow> True)
          \<or> (case map_of (rev kvs) ''products'' of Some (JArr xs) \<Rightarrow> False | _ \<Rightarrow> True)
      | _ \<Rightarrow> True)"

section \<open>Catalog mutation engine\<close>

text \<open>
  What one call takes from its surroundings: the time \<open>readCatalog\<close> reads
  (\<open>new Date()\<close> at its start), the time the operation reads afterwards (\<open>nowIso()\<close>), the
  result of the \<open>i\<close>-th \<open>crypto.randomBytes(2).toString("hex")\<close> and of the \<open>k\<close>-th
  \<open>crypto.randomUUID()\<close> of the call, counted from 0.
\<close>

record env =
  readTime :: string
  nowTime :: string
  randomHex :: "nat \<Rightarrow> string"
  randomUUID :: "nat \<Rightarrow> string"

text \<open>The loop of \<open>uniqueId\<close>, from its \<open>i\<close>-th round on, and the return after it.\<close>

function uniqueIdLoop :: "env \<Rightarrow> nat \<Rightarrow> string \<Rightarrow> string set \<Rightarrow> nat \<Rightarrow> string" where
  "uniqueIdLoop e k base used i =
     (if i < 10 then
        (let suffix = randomHex e i;
             candidate = base @ ''-'' @ suffix
         in if candidate \<notin> used then candidate else uniqueIdLoop e k base used (i + 1))
      else randomUUID e k)"
  by pat_completeness auto
termination
  by (relation "measure (\<lambda>(e, k, base, used, i). 10 - i)") auto

declare uniqueIdLoop.simps [simp del]

text \<open>\<open>k\<close> is the number of \<open>randomUUID\<close> calls the caller has made before.\<close>

definition uniqueId :: "env \<Rightarrow> nat \<Rightarrow> string \<Rightarrow> string set \<Rightarrow> string" where
  "uniqueId e k base used = (if base \<notin> used then base else uniqueIdLoop e k base used 0)"

text \<open>
  \<open>slugify(name) || crypto.randomUUID()\<close> followed by \<open>uniqueId(baseId, usedIds)\<close>, as both
  create operations have it.
\<close>

definition freshId :: "env \<Rightarrow> string \<Rightarrow> string set \<Rightarrow> string" where
  "freshId e name usedIds =
     (let slug = slugify name;
          baseId = (if slug \<noteq> [] then slug else randomUUID e 0)
      in uniqueId e (if slug \<noteq> [] then 0 else 1) baseId usedIds)"

definition createCategory :: "env \<Rightarrow> string \<Rightarrow> fsys \<Rightarrow> (exn + Category) \<times> fsys" where
  "createCategory e nameRaw fs =
     (let name = normalizeName nameRaw
      in if name = [] then (Inl (Error ''Category name is required.''), fs)
         else if length name > 60
           then (Inl (Error ''Category name is too long (max 60 chars).''), fs)
         else
           (case readCatalog (readTime e) fs of
              Inl err \<Rightarrow> (Inl err, fs)
            | Inr catalog \<Rightarrow>
                if list_ex (\<lambda>c. toLowerCase (cname c) = toLowerCase name) (categories catalog)
                then (Inl (Error ''Category already exists.''), fs)
                else
                  (let usedIds = set (map cid (categories catalog));
                       newId = freshId e name usedIds;
                       createdAt = nowTime e;
                       category = \<lparr> cid = newId, cname = name, ccreatedAt = createdAt \<rparr>;
                       next = catalog \<lparr> updatedAt := createdAt,
                                        categories := categories catalog @ [category] \<rparr>
                   in (Inr category, writeCatalog next fs))))"

definition deleteCategory :: "env \<Rightarrow> string \<Rightarrow> fsys \<Rightarrow> (exn + unit) \<times> fsys" where
  "deleteCategory e categoryId' fs =
     (case readCatalog (readTime e) fs of
        Inl err \<Rightarrow> (Inl err, fs)
      | Inr catalog \<Rightarrow>
          (let beforeCount = length (categories catalog);
               nextCategories = filter (\<lambda>c. cid c \<noteq> categoryId') (categories catalog)
           in if length nextCategories = beforeCount then (Inr (), fs)
              else
                (let nextProducts = filter (\<lambda>p. categoryId p \<noteq> categoryId') (products catalog);
                     updatedAt' = nowTime e;
                     next = catalog \<lparr> updatedAt := updatedAt', categories := nextCategories,
                                      products := nextProducts \<rparr>
                 in (Inr (), writeCatalog next fs))))"

record CreateProductInput =
  in_categoryId :: string
  in_name :: string
  in_description :: string
  in_priceLabel :: string
  in_imageUrl :: string
  in_imageAlt :: string
  in_badgeText :: "string option"
  in_badgeVariant :: "string option"

text \<open>
  \<open>urlProtocol s\<close> is the \<open>protocol\<close> of \<open>new URL(s)\<close>, and \<open>None\<close> when the constructor
  throws: the URL parser is the platform's and is a parameter here.
\<close>

definition createProduct ::
  "(string \<Rightarrow> string option) \<Rightarrow> env \<Rightarrow> CreateProductInput \<Rightarrow> fsys \<Rightarrow> (exn + Product) \<times> fsys"
where
  "createProduct urlProtocol e input fs =
     (let categoryId' = trim (in_categoryId input);
          name = normalizeName (in_name input);
          description' = trim (in_description input);
          priceLabel' = trim (in_priceLabel input);
          imageUrl' = trim (in_imageUrl input);
          imageAlt' = (if trim (in_imageAlt input) \<noteq> [] then trim (in_imageAlt input) else name);
          badgeText' = (case in_badgeText input of
                          None \<Rightarrow> None
                        | Some b \<Rightarrow> if trim b \<noteq> [] then Some (trim b) else None);
          badgeVariant' = in_badgeVariant input
      in if categoryId' = [] then (Inl (Error ''Category is required.''), fs)
         else if name = [] then (Inl (Error ''Product name is required.''), fs)
         else if length name > 80
           then (Inl (Error ''Product name is too long (max 80 chars).''), fs)
         else if description' = [] then (Inl (Error ''Product description is required.''), fs)
         else if length description' > 200
           then (Inl (Error ''Product description is too long (max 200 chars).''), fs)
         else if priceLabel' = [] then (Inl (Error ''Price is required.''), fs)
         else if length priceLabel' > 20 then (Inl (Error ''Price is too long.''), fs)
         else if imageUrl' = [] then (Inl (Error ''Image URL is required.''), fs)
         else if length imageUrl' > 2000 then (Inl (Error ''Image URL is too long.''), fs)
         else
           (case urlProtocol imageUrl' of
              None \<Rightarrow> (Inl (Error ''Image URL is invalid.''), fs)
            | Some protocol \<Rightarrow>
                if protocol \<noteq> ''https:'' then (Inl (Error ''Image URL must be https.''), fs)
                else if badgeVariant' \<noteq> None \<and> badgeVariant' \<noteq> Some []
                        \<and> badgeVariant' \<noteq> Some ''default'' \<and> badgeVariant' \<noteq> Some ''hot''
                  then (Inl (Error ''Badge variant is invalid.''), fs)
                else
                  (case readCatalog (readTime e) fs of
                     Inl err \<Rightarrow> (Inl err, fs)
                   | Inr catalog \<Rightarrow>
                       if \<not> list_ex (\<lambda>c. cid c = categoryId') (categories catalog)
                       then (Inl (Error ''Category does not exist.''), fs)
                       else
                         (let usedIds = set (map pid (products catalog));
                              newId = freshId e name usedIds;
                              createdAt = nowTime e;
                              product = \<lparr> pid = newId, categoryId = categoryId', pname = name,
                                          description = description', priceLabel = priceLabel',
                                          imageUrl = imageUrl', imageAlt = imageAlt',
                                          badgeText = badgeText', badgeVariant = badgeVariant',
                                          pcreatedAt = createdAt \<rparr>;
                              next = catalog \<lparr> updatedAt := createdAt,
                                               products := products catalog @ [product] \<rparr>
                          in (Inr product, writeCatalog next fs)))))"

definition deleteProduct :: "env \<Rightarrow> string \<Rightarrow> fsys \<Rightarrow> (exn + unit) \<times> fsys" where
  "deleteProduct e productId fs =
     (case readCatalog (readTime e) fs of
        Inl err \<Rightarrow> (Inl err, fs)
      | Inr catalog \<Rightarrow>
          (let beforeCount = length (products catalog);
               nextProducts = filter (\<lambda>p. pid p \<noteq> productId) (products catalog)
           in if length nextProducts = beforeCount then (Inr (), fs)
              else
                (let updatedAt' = nowTime e;
                     next = catalog \<lparr> updatedAt := updatedAt', products := nextProducts \<rparr>
                 in (Inr (), writeCatalog next fs))))"

section \<open>Catalog query\<close>

text \<open>
  \<open>Array.prototype.sort\<close> with a comparison function: the sort is stable, and \<open>x\<close> stays
  before \<open>y\<close> unless the comparison says \<open>x\<close> comes after \<open>y\<close>. \<open>localeCompare\<close> is the
  platform's collation and is a parameter.
\<close>

fun insertJS :: "('a \<Rightarrow> 'a \<Rightarrow> int) \<Rightarrow> 'a \<Rightarrow> 'a list \<Rightarrow> 'a list" where
  "insertJS f x [] = [x]"
| "insertJS f x (y # ys) = (if f x y \<le> 0 then x # y # ys else y # insertJS f x ys)"

definition sortJS :: "('a \<Rightarrow> 'a \<Rightarrow> int) \<Rightarrow> 'a list \<Rightarrow> 'a list" where
  "sortJS f xs = foldr (insertJS f) xs []"

definition getPublicCatalog ::
  "(string \<Rightarrow> string \<Rightarrow> int) \<Rightarrow> env \<Rightarrow> fsys \<Rightarrow> (exn + Category list \<times> Product list) \<times> fsys"
where
  "getPublicCatalog localeCompare e fs =
     (case readCatalog (readTime e) fs of
        Inl err \<Rightarrow> (Inl err, fs)
      | Inr catalog \<Rightarrow>
          (let categories' = sortJS (\<lambda>a b. localeCompare (cname a) (cname b)) (categories catalog);
               categoryIds = set (map cid categories');
               products' = sortJS (\<lambda>a b. localeCompare (pcreatedAt b) (pcreatedAt a))
                             (filter (\<lambda>p. categoryId p \<in> categoryIds) (products catalog))
           in (Inr (categories', products'), fs)))"

section \<open>Properties the specification names\<close>

text \<open>
  The identifier \<open>uniqueId\<close> returns after ten collisions: the next \<open>randomUUID\<close> of the
  call, the second one when the slug was empty and the base was a random identifier too.
\<close>

definition fallbackUUID :: "env \<Rightarrow> string \<Rightarrow> string" where
  "fallbackUUID e name = randomUUID e (if slugify name \<noteq> [] then 0 else 1)"

definition idsUnique :: "CatalogData \<Rightarrow> bool" where
  "idsUnique d = (distinct (map cid (categories d)) \<and> distinct (map pid (products d)))"

text \<open>
  The validation rules in the order the specification lists them, each with the condition
  that violates it and the message of its error: first the rules about the input alone,
  then the rule that needs the catalog. A field is missing when it is empty after
  normalisation; a badge variant is present when it is supplied and not the empty string
  (the form action turns the empty string into \<open>undefined\<close>).
\<close>

fun firstViolation :: "(bool \<times> string) list \<Rightarrow> string option" where
  "firstViolation [] = None"
| "firstViolation ((violated, message) # rules) =
     (if violated then Some message else firstViolation rules)"

definition categoryInputRules :: "string \<Rightarrow> (bool \<times> string) list" where
  "categoryInputRules nameRaw =
     [(normalizeName nameRaw = [], ''Category name is required.''),
      (60 < length (normalizeName nameRaw), ''Category name is too long (max 60 chars).'')]"

definition categoryRules :: "string \<Rightarrow> CatalogData \<Rightarrow> (bool \<times> string) list" where
  "categoryRules nameRaw d =
     categoryInputRules nameRaw
     @ [(\<exists>c \<in> set (categories d).
           toLowerCase (cname c) = toLowerCase (normalizeName nameRaw),
         ''Category already exists.'')]"

definition badgePresent :: "string option \<Rightarrow> bool" where
  "badgePresent v = (v \<noteq> None \<and> v \<noteq> Some [])"

definition productInputRules ::
  "(string \<Rightarrow> string option) \<Rightarrow> CreateProductInput \<Rightarrow> (bool \<times> string) list"
where
  "productInputRules urlProtocol input =
     [(trim (in_categoryId input) = [], ''Category is required.''),
      (normalizeName (in_name input) = [], ''Product name is required.''),
      (80 < length (normalizeName (in_name input)), ''Product name is too long (max 80 chars).''),
      (trim (in_description input) = [], ''Product description is required.''),
      (200 < length (trim (in_description input)),
       ''Product description is too long (max 200 chars).''),
      (trim (in_priceLabel input) = [], ''Price is required.''),
      (20 < length (trim (in_priceLabel input)), ''Price is too long.''),
      (trim (in_imageUrl input) = [], ''Image URL is required.''),
      (2000 < length (trim (in_imageUrl input)), ''Image URL is too long.''),
      (urlProtocol (trim (in_imageUrl input)) = None, ''Image URL is invalid.''),
      (urlProtocol (trim (in_imageUrl input)) \<noteq> Some ''https:'', ''Image URL must be https.''),
      (badgePresent (in_badgeVariant input)
         \<and> in_badgeVariant input \<noteq> Some ''default'' \<and> in_badgeVariant input \<noteq> Some ''hot'',
       ''Badge variant is invalid.'')]"

definition productRules ::
  "(string \<Rightarrow> string option) \<Rightarrow> CreateProductInput \<Rightarrow> CatalogData \<Rightarrow> (bool \<times> string) list"
where
  "productRules urlProtocol input d =
     productInputRules urlProtocol input
     @ [(trim (in_categoryId input) \<notin> cid ` set (categories d), ''Category does not exist.'')]"

text \<open>
  An input that is valid apart from its name and its image URL: every rule about the
  other fields holds.
\<close>

definition otherwiseValid :: "CreateProductInput \<Rightarrow> CatalogData \<Rightarrow> bool" where
  "otherwiseValid input d =
     (trim (in_categoryId input) \<in> cid ` set (categories d)
      \<and> trim (in_categoryId input) \<noteq> []
      \<and> trim (in_description input) \<noteq> [] \<and> length (trim (in_description input)) \<le> 200
      \<and> trim (in_priceLabel input) \<noteq> [] \<and> length (trim (in_priceLabel input)) \<le> 20
      \<and> trim (in_imageUrl input) \<noteq> [] \<and> length (trim (in_imageUrl input)) \<le> 2000
      \<and> (in_badgeVariant input = None \<or> in_badgeVariant input = Some ''default''
           \<or> in_badgeVariant input = Some ''hot''))"

text \<open>
  What the query needs of the collation: the sign of a comparison turns with its
  arguments, and "not after" is transitive.
\<close>

definition collationLaws :: "(string \<Rightarrow> string \<Rightarrow> int) \<Rightarrow> bool" where
  "collationLaws localeCompare =
     ((\<forall>a b. (localeCompare a b < 0) = (0 < localeCompare b a))
      \<and> (\<forall>a b c. localeCompare a b \<le> 0 \<and> localeCompare b c \<le> 0 \<longrightarrow> localeCompare a c \<le> 0))"

text \<open>
  The comparison of two strings by their code units, a collation that satisfies the laws
  and orders ISO timestamps by time.
\<close>

fun codeUnitCompare :: "string \<Rightarrow> string \<Rightarrow> int" where
  "codeUnitCompare [] [] = 0"
| "codeUnitCompare [] (y # ys) = - 1"
| "codeUnitCompare (x # xs) [] = 1"
| "codeUnitCompare (x # xs) (y # ys) =
     (if (of_char x :: nat) < of_char y then - 1
      else if (of_char y :: nat) < of_char x then 1
      else codeUnitCompare xs ys)"

section \<open>Session authentication\<close>

text \<open>
  The platform functions the module calls, as parameters: HMAC-SHA256 of a UTF-8 text
  under a key, the \<open>base64url\<close> encoding of a buffer and its decoding (which never throws),
  UTF-8 encoding and decoding, \<open>JSON.stringify\<close> and \<open>JSON.parse\<close> (\<open>None\<close> when it throws).
\<close>

type_synonym buffer = "8 word list"

record platform =
  hmacSha256 :: "string \<Rightarrow> string \<Rightarrow> buffer"
  base64urlEncode :: "buffer \<Rightarrow> string"
  base64urlDecode :: "string \<Rightarrow> buffer"
  utf8Encode :: "string \<Rightarrow> buffer"
  utf8Decode :: "buffer \<Rightarrow> string"
  jsonStringify :: "json \<Rightarrow> string"
  jsonParse :: "string \<Rightarrow> json option"

definition COOKIE_NAME :: string where
  "COOKIE_NAME = ''arbatai_backoffice''"

definition SESSION_TTL_MS :: int where
  "SESSION_TTL_MS = 1000 * 60 * 60 * 24 * 30"

text \<open>\<open>process.env\<close> is a map from names to strings.\<close>

definition requiredEnv :: "(string \<Rightarrow> string option) \<Rightarrow> string \<Rightarrow> exn + string" where
  "requiredEnv processEnv name' =
     (case processEnv name' of
        None \<Rightarrow> Inl (Error (''Missing required env var: '' @ name'))
      | Some v \<Rightarrow> if v = [] then Inl (Error (''Missing required env var: '' @ name')) else Inr v)"

definition timingSafeEqual :: "buffer \<Rightarrow> buffer \<Rightarrow> bool" where
  "timingSafeEqual a b = (if length a \<noteq> length b then False else a = b)"

definition sessionSecret :: "(string \<Rightarrow> string option) \<Rightarrow> exn + string" where
  "sessionSecret processEnv =
     (case processEnv ''BACKOFFICE_SESSION_SECRET'' of
        Some s \<Rightarrow> Inr s
      | None \<Rightarrow> requiredEnv processEnv ''BACKOFFICE_PASSWORD'')"

definition sign :: "platform \<Rightarrow> (string \<Rightarrow> string option) \<Rightarrow> string \<Rightarrow> exn + buffer" where
  "sign lib processEnv dataB64Url =
     (case sessionSecret processEnv of
        Inl err \<Rightarrow> Inl err
      | Inr secret \<Rightarrow> Inr (hmacSha256 lib secret dataB64Url))"

definition encodePayload :: "platform \<Rightarrow> rat \<Rightarrow> string" where
  "encodePayload lib exp' =
     base64urlEncode lib (utf8Encode lib (jsonStringify lib (JObj [(''exp'', JNum exp')])))"

text \<open>\<open>!parsed\<close>: the values JavaScript takes as false.\<close>

fun falsy :: "json \<Rightarrow> bool" where
  "falsy JNull = True"
| "falsy (JBool b) = (\<not> b)"
| "falsy (JNum n) = (n = 0)"
| "falsy (JStr s) = (s = [])"
| "falsy _ = False"

fun isNumber :: "json option \<Rightarrow> bool" where
  "isNumber (Some (JNum n)) = True"
| "isNumber _ = False"

definition decodePayload :: "platform \<Rightarrow> string \<Rightarrow> json option" where
  "decodePayload lib dataB64Url =
     (let raw = utf8Decode lib (base64urlDecode lib dataB64Url)
      in case jsonParse lib raw of
           None \<Rightarrow> None
         | Some parsed \<Rightarrow>
             if falsy parsed \<or> \<not> isNumber (getProp ''exp'' parsed) then None else Some parsed)"

record cookie =
  cvalue :: string
  httpOnly :: bool
  sameSite :: string
  secure :: bool
  path :: string
  expires :: int

text \<open>
  \<open>setBackofficeSessionCookie\<close> at the time \<open>now\<close> (\<open>Date.now()\<close>, in milliseconds): the
  name and the cookie it sets on the response.
\<close>

definition setBackofficeSessionCookie ::
  "platform \<Rightarrow> (string \<Rightarrow> string option) \<Rightarrow> int \<Rightarrow> exn + string \<times> cookie"
where
  "setBackofficeSessionCookie lib processEnv now =
     (let exp' = now + SESSION_TTL_MS;
          data = encodePayload lib (of_int exp')
      in case sign lib processEnv data of
           Inl err \<Rightarrow> Inl err
         | Inr sig \<Rightarrow>
             (let value = data @ ''.'' @ base64urlEncode lib sig
              in Inr (COOKIE_NAME,
                   \<lparr> cvalue = value, httpOnly = True, sameSite = ''strict'',
                     secure = (processEnv ''NODE_ENV'' = Some ''production''),
                     path = ''/backoffice'', expires = exp' \<rparr>)))"

text \<open>
  \<open>payload.exp <= Date.now()\<close>. A payload that \<open>decodePayload\<close> returns has a number there;
  on anything else the comparison of JavaScript is false.
\<close>

definition expNotAfter :: "json \<Rightarrow> int \<Rightarrow> bool" where
  "expNotAfter payload now =
     (case getProp ''exp'' payload of Some (JNum x) \<Rightarrow> x \<le> of_int now | _ \<Rightarrow> False)"

text \<open>
  \<open>isBackofficeAuthed\<close> at the time \<open>now\<close>, on the cookies of the request (a map from
  names to values).
\<close>

definition isBackofficeAuthed ::
  "platform \<Rightarrow> (string \<Rightarrow> string option) \<Rightarrow> int \<Rightarrow> (string \<Rightarrow> string option) \<Rightarrow> exn + bool"
where
  "isBackofficeAuthed lib processEnv now store =
     (case store COOKIE_NAME of
        None \<Rightarrow> Inr False
      | Some value \<Rightarrow>
          if value = [] then Inr False
          else
            (case splitOn (CHR ''.'') value of
               [data, sigB64] \<Rightarrow>
                 (case sign lib processEnv data of
                    Inl err \<Rightarrow> Inl err
                  | Inr expectedSig \<Rightarrow>
                      (let actualSig = base64urlDecode lib sigB64
                       in if \<not> timingSafeEqual actualSig expectedSig then Inr False
                          else
                            (case decodePayload lib data of
                               None \<Rightarrow> Inr False
                             | Some payload \<Rightarrow>
                                 if expNotAfter payload now then Inr False else Inr True)))
             | _ \<Rightarrow> Inr False))"

text \<open>
  The conditions of the specification: the cookie is present, its value has exactly two
  parts around a dot, the signature is the HMAC of the first part under the secret, the
  payload decodes to an object with a number \<open>exp\<close>, and \<open>exp\<close> is after the current time.
\<close>

definition specAuthenticated :: "platform \<Rightarrow> string \<Rightarrow> int \<Rightarrow> string option \<Rightarrow> bool" where
  "specAuthenticated lib secret now cookieValue =
     (case cookieValue of
        None \<Rightarrow> False
      | Some value \<Rightarrow>
          (case splitOn (CHR ''.'') value of
             [data, sigB64] \<Rightarrow>
               base64urlDecode lib sigB64 = hmacSha256 lib secret data
               \<and> (case jsonParse lib (utf8Decode lib (base64urlDecode lib data)) of
                     Some (JObj members) \<Rightarrow>
                       (case map_of (rev members) ''exp'' of
                          Some (JNum x) \<Rightarrow> of_int now < x
                        | _ \<Rightarrow> False)
                   | _ \<Rightarrow> False)
           | _ \<Rightarrow> False))"

text \<open>
  What the round trip needs of the platform, at the payload of expiry \<open>x\<close> and the secret:
  decoding undoes encoding on the payload and on the signature, no dot occurs in a
  \<open>base64url\<close> text, and the parser reads back the object that was written.
\<close>

definition roundTripLaws :: "platform \<Rightarrow> string \<Rightarrow> rat \<Rightarrow> bool" where
  "roundTripLaws lib secret x =
     (let text' = jsonStringify lib (JObj [(''exp'', JNum x)]);
          data = base64urlEncode lib (utf8Encode lib text');
          sig = hmacSha256 lib secret data
      in base64urlDecode lib data = utf8Encode lib text'
         \<and> utf8Decode lib (utf8Encode lib text') = text'
         \<and> jsonParse lib text' = Some (JObj [(''exp'', JNum x)])
         \<and> base64urlDecode lib (base64urlEncode lib sig) = sig
         \<and> CHR ''.'' \<notin> set data
         \<and> CHR ''.'' \<notin> set (base64urlEncode lib sig))"

text \<open>
  Two texts of the same length that differ at exactly one position: the second is the
  first with a single byte changed.
\<close>

definition singleByteFlipped :: "string \<Rightarrow> string \<Rightarrow> bool" where
  "singleByteFlipped a b =
     (length a = length b \<and> length (filter (\<lambda>(x, y). x \<noteq> y) (zip a b)) = 1)"

text \<open>The cookies of a request that carries the session cookie with the value \<open>v\<close> only.\<close>

definition requestWith :: "string \<Rightarrow> string \<Rightarrow> string option" where
  "requestWith v n = (if n = COOKIE_NAME then Some v else None)"

definition noCookies :: "string \<Rightarrow> string option" where
  "noCookies n = None"

section \<open>Sample data\<close>

text \<open>
  A catalog with two categories and three products, one of them an orphan, the file system
  that holds it, the file system with no catalog file, and the surroundings of a call.
\<close>

definition oolong :: Category where
  "oolong = \<lparr> cid = ''oolong'', cname = ''Oolong!'', ccreatedAt = ''2026-01-05T09:00:00.000Z'' \<rparr>"

definition greenTea :: Category where
  "greenTea = \<lparr> cid = ''green-tea'', cname = ''Green Tea'',
                ccreatedAt = ''2026-01-04T09:00:00.000Z'' \<rparr>"

definition tieGuanYin :: Product where
  "tieGuanYin = \<lparr> pid = ''tie-guan-yin'', categoryId = ''oolong'', pname = ''Tie Guan Yin'',
                  description = ''Floral and creamy.'', priceLabel = ''12 EUR'',
                  imageUrl = ''https://example.com/a.png'', imageAlt = ''Tie Guan Yin'',
                  badgeText = None, badgeVariant = None,
                  pcreatedAt = ''2026-01-06T09:00:00.000Z'' \<rparr>"

definition sencha :: Product where
  "sencha = \<lparr> pid = ''sencha'', categoryId = ''green-tea'', pname = ''Sencha'',
              description = ''Grassy.'', priceLabel = ''9 EUR'',
              imageUrl = ''https://example.com/b.png'', imageAlt = ''Sencha'',
              badgeText = Some ''New'', badgeVariant = Some ''hot'',
              pcreatedAt = ''2026-01-07T09:00:00.000Z'' \<rparr>"

definition strayProduct :: Product where
  "strayProduct = \<lparr> pid = ''stray'', categoryId = ''gone'', pname = ''Stray'',
                    description = ''Left behind.'', priceLabel = ''1 EUR'',
                    imageUrl = ''https://example.com/c.png'', imageAlt = ''Stray'',
                    badgeText = None, badgeVariant = None,
                    pcreatedAt = ''2026-01-08T09:00:00.000Z'' \<rparr>"

definition teaCatalog :: CatalogData where
  "teaCatalog = \<lparr> version = 1, updatedAt = ''2026-01-08T09:00:00.000Z'',
                  categories = [oolong, greenTea],
                  products = [tieGuanYin, sencha, strayProduct] \<rparr>"

definition teaFs :: fsys where
  "teaFs = \<lparr> canonical = stored teaCatalog, renames = 0 \<rparr>"

definition emptyFs :: fsys where
  "emptyFs = \<lparr> canonical = ReadFails ''ENOENT'', renames = 0 \<rparr>"

definition drawHex :: "nat \<Rightarrow> string" where
  "drawHex i = (if i = 0 then ''a3f1'' else ''07bd'')"

definition drawUUID :: "nat \<Rightarrow> string" where
  "drawUUID k = ''6f1c2d3e-4b5a-4c7d-8e9f-0a1b2c3d4e5f''"

definition teaEnv :: env where
  "teaEnv = \<lparr> readTime = ''2026-03-01T10:00:00.000Z'', nowTime = ''2026-03-01T10:00:00.005Z'',
              randomHex = drawHex, randomUUID = drawUUID \<rparr>"

text \<open>
  A catalog in which the slug \<open>a\<close>, its candidate with the suffix \<open>0000\<close> and a random
  identifier are in use, and surroundings that draw that suffix every time and that
  identifier again.
\<close>

definition repeatedHex :: "nat \<Rightarrow> string" where
  "repeatedHex i = ''0000''"

definition crowdedCatalog :: CatalogData where
  "crowdedCatalog =
     \<lparr> version = 1, updatedAt = ''2026-01-08T09:00:00.000Z'',
       categories =
         [\<lparr> cid = ''a'', cname = ''a'', ccreatedAt = ''2026-01-01T09:00:00.000Z'' \<rparr>,
          \<lparr> cid = ''a-0000'', cname = ''a 0000'', ccreatedAt = ''2026-01-02T09:00:00.000Z'' \<rparr>,
          \<lparr> cid = ''6f1c2d3e-4b5a-4c7d-8e9f-0a1b2c3d4e5f'', cname = ''!'',
            ccreatedAt = ''2026-01-03T09:00:00.000Z'' \<rparr>],
       products = [] \<rparr>"

definition crowdedFs :: fsys where
  "crowdedFs = \<lparr> canonical = stored crowdedCatalog, renames = 0 \<rparr>"

definition crowdedEnv :: env where
  "crowdedEnv = \<lparr> readTime = ''2026-03-01T10:00:00.000Z'', nowTime = ''2026-03-01T10:00:00.005Z'',
                  randomHex = repeatedHex, randomUUID = drawUUID \<rparr>"

text \<open>A catalog file with a category whose name is longer than a new name may be.\<close>

definition overlongName :: string where
  "overlongName = replicate 61 (CHR ''a'')"

definition overlongCategory :: Category where
  "overlongCategory = \<lparr> cid = ''a'', cname = overlongName,
                        ccreatedAt = ''2026-01-01T09:00:00.000Z'' \<rparr>"

definition overlongCatalog :: CatalogData where
  "overlongCatalog = \<lparr> version = 1, updatedAt = ''2026-01-01T09:00:00.000Z'',
                       categories = [overlongCategory], products = [] \<rparr>"

definition overlongFs :: fsys where
  "overlongFs = \<lparr> canonical = stored overlongCatalog, renames = 0 \<rparr>"

text \<open>
  A product input with the given name and image URL and every other field valid for
  \<open>teaCatalog\<close>, and the protocols of two URLs as the URL parser gives them.
\<close>

definition productInput :: "string \<Rightarrow> string \<Rightarrow> CreateProductInput" where
  "productInput n u =
     \<lparr> in_categoryId = ''oolong'', in_name = n, in_description = ''Roasted.'',
       in_priceLabel = ''15 EUR'', in_imageUrl = u, in_imageAlt = [],
       in_badgeText = None, in_badgeVariant = Some ''default'' \<rparr>"

definition sampleUrlProtocol :: "string \<Rightarrow> string option" where
  "sampleUrlProtocol s =
     (if s = ''https://example.com/a.png'' then Some ''https:''
      else if s = ''http://example.com/a.png'' then Some ''http:''
      else None)"

text \<open>
  A configuration with the password only, and the platform functions at the values of one
  session: the payload text of expiry 1769817600000, its UTF-8 bytes and \<open>base64url\<close>
  text, the HMAC-SHA256 of that text under the password and its \<open>base64url\<close> text; and the
  same for the payload in which one digit of the expiry is changed.
\<close>

definition sampleSecret :: string where
  "sampleSecret = ''correct horse battery staple''"

definition sampleProcessEnv :: "string \<Rightarrow> string option" where
  "sampleProcessEnv n = (if n = ''BACKOFFICE_PASSWORD'' then Some sampleSecret else None)"

definition noProcessEnv :: "string \<Rightarrow> string option" where
  "noProcessEnv n = None"

definition sampleText :: string where
  \<open>sampleText = ''{"exp":1769817600000}''\<close>

definition sampleBytes :: buffer where
  "sampleBytes = [123, 34, 101, 120, 112, 34, 58, 49, 55, 54, 57, 56, 49, 55, 54, 48, 48, 48,
                  48, 48, 125]"

definition sampleData :: string where
  "sampleData = ''eyJleHAiOjE3Njk4MTc2MDAwMDB9''"

definition sampleSig :: buffer where
  "sampleSig = [43, 45, 16, 76, 13, 190, 240, 27, 159, 160, 192, 83, 98, 178, 6, 237, 115, 180,
                40, 143, 205, 191, 12, 170, 53, 25, 169, 206, 165, 86, 208, 69]"

definition sampleSigText :: string where
  "sampleSigText = ''Ky0QTA2-8BufoMBTYrIG7XO0KI_NvwyqNRmpzqVW0EU''"

definition forgedText :: string where
  \<open>forgedText = ''{"exp":9769817600000}''\<close>

definition forgedBytes :: buffer where
  "forgedBytes = [123, 34, 101, 120, 112, 34, 58, 57, 55, 54, 57, 56, 49, 55, 54, 48, 48, 48,
                  48, 48, 125]"

definition forgedData :: string where
  "forgedData = ''eyJleHAiOjk3Njk4MTc2MDAwMDB9''"

definition forgedSig :: buffer where
  "forgedSig = [157, 88, 42, 204, 220, 25, 49, 231, 196, 63, 132, 61, 94, 201, 254, 163, 246,
                53, 152, 103, 182, 104, 161, 110, 235, 246, 22, 134, 84, 108, 206, 138]"

definition sampleHmac :: "string \<Rightarrow> string \<Rightarrow> buffer" where
  "sampleHmac k s =
     (if k = sampleSecret \<and> s = sampleData then sampleSig
      else if k = sampleSecret \<and> s = forgedData then forgedSig
      else [])"

definition sampleEncode :: "buffer \<Rightarrow> string" where
  "sampleEncode b =
     (if b = sampleBytes then sampleData
      else if b = sampleSig then sampleSigText
      else if b = forgedBytes then forgedData
      else [])"

definition sampleDecode :: "string \<Rightarrow> buffer" where
  "sampleDecode s =
     (if s = sampleData then sampleBytes
      else if s = sampleSigText then sampleSig
      else if s = forgedData then forgedBytes
      else [])"

definition sampleUtf8Encode :: "string \<Rightarrow> buffer" where
  "sampleUtf8Encode s =
     (if s = sampleText then sampleBytes else if s = forgedText then forgedBytes else [])"

definition sampleUtf8Decode :: "buffer \<Rightarrow> string" where
  "sampleUtf8Decode b =
     (if b = sampleBytes then sampleText else if b = forgedBytes then forgedText else [])"

definition sampleStringify :: "json \<Rightarrow> string" where
  "sampleStringify j =
     (if j = JObj [(''exp'', JNum 1769817600000)] then sampleText
      else if j = JObj [(''exp'', JNum 9769817600000)] then forgedText
      else [])"

definition sampleParse :: "string \<Rightarrow> json option" where
  "sampleParse s =
     (if s = sampleText then Some (JObj [(''exp'', JNum 1769817600000)])
      else if s = forgedText then Some (JObj [(''exp'', JNum 9769817600000)])
      else None)"

definition samplePlatform :: platform where
  "samplePlatform =
     \<lparr> hmacSha256 = sampleHmac, base64urlEncode = sampleEncode, base64urlDecode = sampleDecode,
       utf8Encode = sampleUtf8Encode, utf8Decode = sampleUtf8Decode,
       jsonStringify = sampleStringify, jsonParse = sampleParse \<rparr>"

section \<open>Facts about the store\<close>

lemma asCategory_categoryJson: "asCategory (categoryJson c) = Some c"
  by (simp add: asCategory_def categoryJson_def strProp_def)

lemma asProduct_productJson: "asProduct (productJson p) = Some p"
  by (cases "badgeText p"; cases "badgeVariant p")
     (simp_all add: asProduct_def productJson_def strProp_def optStrProp_def optMember_def)

lemma those_map_inverse:
  assumes "\<And>x. f (g x) = Some x"
  shows "those_map f (map g xs) = Some xs"
  by (induction xs) (simp_all add: assms)

lemma asCatalogData_catalogJson: "asCatalogData (catalogJson d) = Some d"
  unfolding asCatalogData_def
  by (cases d)
     (simp add: catalogJson_def those_map_inverse [of asCategory categoryJson]
        those_map_inverse [of asProduct productJson] asCategory_categoryJson
        asProduct_productJson)

lemma asCatalogData_Some: "asCatalogData j = Some d \<Longrightarrow> catalogJson d = j"
  by (auto simp: asCatalogData_def Let_def split: option.splits json.splits if_splits)

lemma shapeOk_catalogJson: "shapeOk (catalogJson d) = (version d = 1)"
  by (simp add: shapeOk_def catalogJson_def)

lemma isArray_iff: "isArray v = (\<exists>xs. v = Some (JArr xs))"
  by (cases v rule: isArray.cases) simp_all

lemma specMalformed_shapeOk: "specMalformed j = (\<not> shapeOk j)"
  by (cases j)
     (auto simp: specMalformed_def shapeOk_def isArray_iff split: option.splits json.splits)

lemma readCatalog_stored:
  "canonical fs = stored d \<Longrightarrow> version d = 1 \<Longrightarrow> readCatalog t fs = Inr d"
  by (simp add: readCatalog_def readCatalogJson_def stored_def shapeOk_catalogJson
      asCatalogData_catalogJson)

lemma readCatalog_version: "readCatalog t fs = Inr d \<Longrightarrow> version d = 1"
proof -
  assume r: "readCatalog t fs = Inr d"
  then obtain j where j: "readCatalogJson t fs = Inr j" and c: "asCatalogData j = Some d"
    by (auto simp: readCatalog_def split: sum.splits option.splits)
  from c have e: "catalogJson d = j" by (rule asCatalogData_Some)
  from j have "shapeOk j"
    by (auto simp: readCatalogJson_def catchRead_def shapeOk_catalogJson defaultCatalog_def
        split: diskFile.splits content.splits if_splits exn.splits)
  then have "shapeOk (catalogJson d)" unfolding e .
  then show ?thesis by (simp add: shapeOk_catalogJson)
qed

lemma readCatalog_writeCatalog:
  "version d = 1 \<Longrightarrow> readCatalog t (writeCatalog d fs) = Inr d"
  by (rule readCatalog_stored) (simp_all add: writeCatalog_def stored_def)

section \<open>Facts about the sample data\<close>

lemma readCatalog_teaFs: "readCatalog (readTime teaEnv) teaFs = Inr teaCatalog"
  by (rule readCatalog_stored) (simp_all add: teaFs_def teaCatalog_def)

lemma sessionSecret_sample: "sessionSecret sampleProcessEnv = Inr sampleSecret"
  by (simp add: sessionSecret_def sampleProcessEnv_def requiredEnv_def sampleSecret_def)

section \<open>The store heals a missing or misshapen document\<close>

text \<open>
  Claim C1, as the code has it. \<open>readCatalog\<close> returns the fresh empty catalog (version 1,
  \<open>updatedAt\<close> the current time, no categories, no products) when the file does not exist
  and when its text parses to a JSON value that fails the shape check (the version is not
  1, or \<open>categories\<close> or \<open>products\<close> is not a list; any value that is not an object fails
  it). A text that is not JSON makes \<open>JSON.parse\<close> throw, and the \<open>SyntaxError\<close> propagates
  like a read failure with a code other than \<open>ENOENT\<close>: the \<open>catch\<close> clause returns the
  default for \<open>ENOENT\<close> only.
\<close>

theorem readCatalog_self_healing:
  "(canonical fs = ReadFails ''ENOENT'' \<longrightarrow> readCatalog t fs = Inr (defaultCatalog t))
   \<and> (canonical fs = ReadGives (Json j) \<and> specMalformed j \<longrightarrow>
        readCatalog t fs = Inr (defaultCatalog t))
   \<and> (canonical fs = ReadGives NotJson \<longrightarrow> readCatalog t fs = Inl SyntaxError)
   \<and> (canonical fs = ReadFails code \<and> code \<noteq> ''ENOENT'' \<longrightarrow>
        readCatalog t fs = Inl (ErrnoException code))"
  by (auto simp: readCatalog_def readCatalogJson_def catchRead_def specMalformed_shapeOk
      asCatalogData_catalogJson)

theorem readCatalog_self_healing_witness:
  "readCatalog ''2026-01-01T00:00:00.000Z''
     \<lparr> canonical = ReadGives (Json (JObj [(''version'', JNum 2), (''categories'', JArr []),
                                              (''products'', JArr [])])), renames = 0 \<rparr>
     = Inr (defaultCatalog ''2026-01-01T00:00:00.000Z'')
   \<and> readCatalog ''2026-01-01T00:00:00.000Z'' \<lparr> canonical = ReadFails ''EACCES'', renames = 0 \<rparr>
     = Inl (ErrnoException ''EACCES'')
   \<and> readCatalog ''2026-01-01T00:00:00.000Z'' \<lparr> canonical = ReadFails ''ENOENT'', renames = 0 \<rparr>
     = Inr (defaultCatalog ''2026-01-01T00:00:00.000Z'')"
proof -
  let ?j = "JObj [(''version'', JNum 2), (''categories'', JArr []), (''products'', JArr [])]"
  have m: "specMalformed ?j" by (simp add: specMalformed_def)
  have c: "''EACCES'' \<noteq> ''ENOENT''" by simp
  note a = readCatalog_self_healing [where fs = "\<lparr> canonical = ReadGives (Json ?j), renames = 0 \<rparr>"
      and j = ?j and t = "''2026-01-01T00:00:00.000Z''" and code = "''ENOENT''"]
  note b = readCatalog_self_healing [where fs = "\<lparr> canonical = ReadFails ''EACCES'', renames = 0 \<rparr>"
      and j = JNull and t = "''2026-01-01T00:00:00.000Z''" and code = "''EACCES''"]
  note d = readCatalog_self_healing [where fs = "\<lparr> canonical = ReadFails ''ENOENT'', renames = 0 \<rparr>"
      and j = JNull and t = "''2026-01-01T00:00:00.000Z''" and code = "''ENOENT''"]
  from a m b c d show ?thesis by simp
qed

text \<open>
  The claim as written fails on a file whose text is not JSON (the text \<open>{\<close>, say): the
  call raises the \<open>SyntaxError\<close> and returns no catalog.
\<close>

theorem readCatalog_invalid_json_counterexample:
  "readCatalog ''2026-01-01T00:00:00.000Z'' \<lparr> canonical = ReadGives NotJson, renames = 0 \<rparr>
     = Inl SyntaxError"
  by (simp add: readCatalog_def readCatalogJson_def catchRead_def)

section \<open>Facts about the mutation engine\<close>

lemma filter_length_eq_iff: "(length (filter P xs) = length xs) = (\<forall>x\<in>set xs. P x)"
proof
  assume eq: "length (filter P xs) = length xs"
  show "\<forall>x\<in>set xs. P x"
  proof
    fix x assume x: "x \<in> set xs"
    show "P x"
    proof (rule ccontr)
      assume "\<not> P x"
      with x have "length (filter P xs) < length xs" by (rule length_filter_less)
      with eq show False by simp
    qed
  qed
next
  assume "\<forall>x\<in>set xs. P x"
  then have "filter P xs = xs" by simp
  then show "length (filter P xs) = length xs" by simp
qed

lemma list_ex_cid: "list_ex (\<lambda>c. cid c = x) cs = (x \<in> cid ` set cs)"
  by (auto simp: list_ex_iff)

lemma readCatalog_same_lists:
  assumes "readCatalog t fs = Inr d" and "readCatalog t' fs = Inr d'"
  shows "categories d' = categories d \<and> products d' = products d"
  using assms
  by (auto simp: readCatalog_def readCatalogJson_def catchRead_def asCatalogData_catalogJson
      defaultCatalog_def
      split: diskFile.splits content.splits if_splits exn.splits option.splits)

lemma readCatalog_after_write:
  assumes "readCatalog t0 fs = Inr d" and "version d' = version d"
    and "readCatalog t (writeCatalog d' fs) = Inr d''"
  shows "d'' = d'"
proof -
  from assms(1) have "version d = 1" by (rule readCatalog_version)
  with assms(2) have "version d' = 1" by simp
  then have "readCatalog t (writeCatalog d' fs) = Inr d'" by (rule readCatalog_writeCatalog)
  with assms(3) show ?thesis by simp
qed

lemma uniqueIdLoop_fresh:
  "uniqueIdLoop e k base used i \<notin> used \<or> uniqueIdLoop e k base used i = randomUUID e k"
proof (induction e k base used i rule: uniqueIdLoop.induct)
  case (1 e k base used i)
  show ?case
  proof (cases "i < 10")
    case True
    show ?thesis
    proof (cases "base @ ''-'' @ randomHex e i \<in> used")
      case True
      with \<open>i < 10\<close> have "uniqueIdLoop e k base used i = uniqueIdLoop e k base used (i + 1)"
        by (subst uniqueIdLoop.simps) simp
      moreover from 1 [OF \<open>i < 10\<close> refl refl] True
      have "uniqueIdLoop e k base used (i + 1) \<notin> used
            \<or> uniqueIdLoop e k base used (i + 1) = randomUUID e k" by simp
      ultimately show ?thesis by simp
    next
      case False
      with \<open>i < 10\<close> show ?thesis by (subst uniqueIdLoop.simps) simp
    qed
  next
    case False
    then show ?thesis by (subst (2) uniqueIdLoop.simps) simp
  qed
qed

lemma freshId_fresh:
  "fallbackUUID e name \<notin> used \<Longrightarrow> freshId e name used \<notin> used"
  using uniqueIdLoop_fresh [of e "if slugify name \<noteq> [] then 0 else 1"
      "if slugify name \<noteq> [] then slugify name else randomUUID e 0" used 0]
  by (auto simp: freshId_def uniqueId_def fallbackUUID_def Let_def split: if_splits)

lemma createCategory_Inr:
  assumes "readCatalog (readTime e) fs = Inr d"
    and "createCategory e nameRaw fs = (Inr c, fs')"
  shows "c = \<lparr> cid = freshId e (normalizeName nameRaw) (cid ` set (categories d)),
               cname = normalizeName nameRaw, ccreatedAt = nowTime e \<rparr>
         \<and> fs' = writeCatalog (d \<lparr> updatedAt := nowTime e, categories := categories d @ [c] \<rparr>) fs"
  using assms by (auto simp: createCategory_def Let_def split: if_splits)

lemma createProduct_Inr:
  assumes "readCatalog (readTime e) fs = Inr d"
    and "createProduct up e inp fs = (Inr p, fs')"
  shows "pid p = freshId e (normalizeName (in_name inp)) (pid ` set (products d))
         \<and> fs' = writeCatalog (d \<lparr> updatedAt := nowTime e, products := products d @ [p] \<rparr>) fs"
  using assms by (auto simp: createProduct_def Let_def split: if_splits option.splits)

lemma createCategory_Inl:
  "createCategory e nameRaw fs = (Inl err, fs') \<Longrightarrow> fs' = fs"
  by (auto simp: createCategory_def Let_def split: if_splits sum.splits)

lemma createProduct_Inl:
  "createProduct up e inp fs = (Inl err, fs') \<Longrightarrow> fs' = fs"
  by (auto simp: createProduct_def Let_def split: if_splits sum.splits option.splits)

lemma createCategory_rules:
  assumes "readCatalog (readTime e) fs = Inr d"
  shows "(case firstViolation (categoryRules nameRaw d) of
            Some m \<Rightarrow> createCategory e nameRaw fs = (Inl (Error m), fs)
          | None \<Rightarrow> (\<exists>c. fst (createCategory e nameRaw fs) = Inr c))"
  using assms
  by (simp add: categoryRules_def categoryInputRules_def createCategory_def Let_def list_ex_iff)

lemma createCategory_input_rules_case:
  "(case firstViolation (categoryInputRules nameRaw) of
      Some m \<Rightarrow> createCategory e nameRaw fs = (Inl (Error m), fs)
    | None \<Rightarrow> True)"
  by (simp add: categoryInputRules_def createCategory_def Let_def)

lemma createCategory_input_rules:
  assumes "firstViolation (categoryInputRules nameRaw) = Some m"
  shows "createCategory e nameRaw fs = (Inl (Error m), fs)"
  using createCategory_input_rules_case [where nameRaw = nameRaw and e = e and fs = fs] assms
  by simp

lemma createProduct_rules:
  assumes "readCatalog (readTime e) fs = Inr d"
  shows "(case firstViolation (productRules up inp d) of
            Some m \<Rightarrow> createProduct up e inp fs = (Inl (Error m), fs)
          | None \<Rightarrow> (\<exists>p. fst (createProduct up e inp fs) = Inr p))"
  using assms
  by (cases "up (trim (in_imageUrl inp))")
     (auto simp add: productRules_def productInputRules_def createProduct_def Let_def list_ex_cid
        badgePresent_def)

lemma createProduct_input_rules_case:
  "(case firstViolation (productInputRules up inp) of
      Some m \<Rightarrow> createProduct up e inp fs = (Inl (Error m), fs)
    | None \<Rightarrow> True)"
  by (cases "up (trim (in_imageUrl inp))")
     (auto simp add: productInputRules_def createProduct_def Let_def badgePresent_def)

lemma createProduct_input_rules:
  assumes "firstViolation (productInputRules up inp) = Some m"
  shows "createProduct up e inp fs = (Inl (Error m), fs)"
  using createProduct_input_rules_case [where up = up and inp = inp and e = e and fs = fs] assms
  by simp

lemma createCategory_keeps_unique:
  assumes r: "readCatalog (readTime e) fs = Inr d"
    and c: "createCategory e nameRaw fs = (Inr c, fs')"
    and f: "fallbackUUID e (normalizeName nameRaw) \<notin> cid ` set (categories d)"
    and u: "idsUnique d"
    and a: "readCatalog t fs' = Inr d'"
  shows "idsUnique d'"
proof -
  from createCategory_Inr [OF r c]
  have ci: "cid c = freshId e (normalizeName nameRaw) (cid ` set (categories d))"
    and fs': "fs' = writeCatalog (d \<lparr> updatedAt := nowTime e, categories := categories d @ [c] \<rparr>) fs"
    by simp_all
  from freshId_fresh [OF f] ci have n: "cid c \<notin> cid ` set (categories d)" by simp
  from a fs' have "d' = d \<lparr> updatedAt := nowTime e, categories := categories d @ [c] \<rparr>"
    using readCatalog_after_write [OF r,
        of "d \<lparr> updatedAt := nowTime e, categories := categories d @ [c] \<rparr>" t d']
    by simp
  with u n show ?thesis by (simp add: idsUnique_def)
qed

lemma createProduct_keeps_unique:
  assumes r: "readCatalog (readTime e) fs = Inr d"
    and c: "createProduct up e inp fs = (Inr p, fs')"
    and f: "fallbackUUID e (normalizeName (in_name inp)) \<notin> pid ` set (products d)"
    and u: "idsUnique d"
    and a: "readCatalog t fs' = Inr d'"
  shows "idsUnique d'"
proof -
  from createProduct_Inr [OF r c]
  have ci: "pid p = freshId e (normalizeName (in_name inp)) (pid ` set (products d))"
    and fs': "fs' = writeCatalog (d \<lparr> updatedAt := nowTime e, products := products d @ [p] \<rparr>) fs"
    by simp_all
  from freshId_fresh [OF f] ci have n: "pid p \<notin> pid ` set (products d)" by simp
  from a fs' have "d' = d \<lparr> updatedAt := nowTime e, products := products d @ [p] \<rparr>"
    using readCatalog_after_write [OF r,
        of "d \<lparr> updatedAt := nowTime e, products := products d @ [p] \<rparr>" t d']
    by simp
  with u n show ?thesis by (simp add: idsUnique_def)
qed

lemma deleteCategory_keeps_unique:
  assumes r: "readCatalog (readTime e) fs = Inr d"
    and c: "deleteCategory e i fs = (res, fs')"
    and u: "idsUnique d"
    and a: "readCatalog t fs' = Inr d'"
  shows "idsUnique d'"
proof (cases "length (filter (\<lambda>c. cid c \<noteq> i) (categories d)) = length (categories d)")
  case True
  with r c have "fs' = fs" by (simp add: deleteCategory_def Let_def)
  with a readCatalog_same_lists [OF r, of t d'] u show ?thesis by (simp add: idsUnique_def)
next
  case False
  let ?d = "d \<lparr> updatedAt := nowTime e, categories := filter (\<lambda>c. cid c \<noteq> i) (categories d),
                  products := filter (\<lambda>p. categoryId p \<noteq> i) (products d) \<rparr>"
  from False r c have "fs' = writeCatalog ?d fs" by (simp add: deleteCategory_def Let_def)
  with a readCatalog_after_write [OF r, of ?d t d'] have "d' = ?d" by simp
  with u show ?thesis by (simp add: idsUnique_def distinct_map_filter)
qed

lemma deleteProduct_keeps_unique:
  assumes r: "readCatalog (readTime e) fs = Inr d"
    and c: "deleteProduct e i fs = (res, fs')"
    and u: "idsUnique d"
    and a: "readCatalog t fs' = Inr d'"
  shows "idsUnique d'"
proof (cases "length (filter (\<lambda>p. pid p \<noteq> i) (products d)) = length (products d)")
  case True
  with r c have "fs' = fs" by (simp add: deleteProduct_def Let_def)
  with a readCatalog_same_lists [OF r, of t d'] u show ?thesis by (simp add: idsUnique_def)
next
  case False
  let ?d = "d \<lparr> updatedAt := nowTime e, products := filter (\<lambda>p. pid p \<noteq> i) (products d) \<rparr>"
  from False r c have "fs' = writeCatalog ?d fs" by (simp add: deleteProduct_def Let_def)
  with a readCatalog_after_write [OF r, of ?d t d'] have "d' = ?d" by simp
  with u show ?thesis by (simp add: idsUnique_def distinct_map_filter)
qed

section \<open>Deleting a category cascades to its products\<close>

text \<open>
  Claim C2. Whatever catalog \<open>d\<close> the store presents, and whatever id \<open>i\<close> one of its
  categories has: \<open>deleteCategory i\<close> returns normally after one write (one rename over the
  canonical path); the document it leaves is \<open>d\<close> with \<open>updatedAt\<close> set to the current
  time, the categories of id \<open>i\<close> filtered out and the products of \<open>categoryId\<close> \<open>i\<close>
  filtered out, every other category and product kept in place; and that document is what
  the store presents afterwards.
\<close>

theorem deleteCategory_cascade:
  assumes "readCatalog (readTime e) fs = Inr d"
    and "i \<in> cid ` set (categories d)"
  shows "deleteCategory e i fs =
           (Inr (), fs \<lparr> canonical :=
                           stored (d \<lparr> updatedAt := nowTime e,
                                       categories := filter (\<lambda>c. cid c \<noteq> i) (categories d),
                                       products := filter (\<lambda>p. categoryId p \<noteq> i) (products d) \<rparr>),
                         renames := renames fs + 1 \<rparr>)
         \<and> readCatalog t (snd (deleteCategory e i fs)) =
             Inr (d \<lparr> updatedAt := nowTime e,
                      categories := filter (\<lambda>c. cid c \<noteq> i) (categories d),
                      products := filter (\<lambda>p. categoryId p \<noteq> i) (products d) \<rparr>)"
proof -
  let ?d = "d \<lparr> updatedAt := nowTime e,
                 categories := filter (\<lambda>c. cid c \<noteq> i) (categories d),
                 products := filter (\<lambda>p. categoryId p \<noteq> i) (products d) \<rparr>"
  from assms(2) have "\<not> (\<forall>c\<in>set (categories d). cid c \<noteq> i)" by auto
  then have "length (filter (\<lambda>c. cid c \<noteq> i) (categories d)) \<noteq> length (categories d)"
    by (simp add: filter_length_eq_iff)
  with assms(1) have del: "deleteCategory e i fs = (Inr (), writeCatalog ?d fs)"
    by (simp add: deleteCategory_def Let_def)
  from assms(1) have "version ?d = 1" by (simp add: readCatalog_version)
  then have "readCatalog t (writeCatalog ?d fs) = Inr ?d" by (rule readCatalog_writeCatalog)
  with del show ?thesis by (simp add: writeCatalog_def stored_def)
qed

theorem deleteCategory_cascade_witness:
  "''oolong'' \<in> cid ` set (categories teaCatalog)
   \<and> fst (deleteCategory teaEnv ''oolong'' teaFs) = Inr ()
   \<and> renames (snd (deleteCategory teaEnv ''oolong'' teaFs)) = 1
   \<and> readCatalog ''2026-03-02T00:00:00.000Z'' (snd (deleteCategory teaEnv ''oolong'' teaFs)) =
       Inr \<lparr> version = 1, updatedAt = nowTime teaEnv, categories = [greenTea],
             products = [sencha, strayProduct] \<rparr>"
proof -
  have i: "''oolong'' \<in> cid ` set (categories teaCatalog)" by code_simp
  have c: "filter (\<lambda>c. cid c \<noteq> ''oolong'') (categories teaCatalog) = [greenTea]" by code_simp
  have p: "filter (\<lambda>p. categoryId p \<noteq> ''oolong'') (products teaCatalog) = [sencha, strayProduct]"
    by code_simp
  have d: "teaCatalog \<lparr> updatedAt := nowTime teaEnv, categories := [greenTea],
                        products := [sencha, strayProduct] \<rparr>
           = \<lparr> version = 1, updatedAt = nowTime teaEnv, categories = [greenTea],
               products = [sencha, strayProduct] \<rparr>"
    by (simp add: teaCatalog_def)
  have r: "renames teaFs = 0" by (simp add: teaFs_def)
  note T = deleteCategory_cascade [OF readCatalog_teaFs i, of "''2026-03-02T00:00:00.000Z''",
      unfolded c p d]
  from T have 1: "fst (deleteCategory teaEnv ''oolong'' teaFs) = Inr ()" by simp
  from T r have 2: "renames (snd (deleteCategory teaEnv ''oolong'' teaFs)) = 1" by simp
  from i 1 2 conjunct2 [OF T] show ?thesis by (intro conjI)
qed

section \<open>Created ids are new\<close>

text \<open>
  Claim C3, as the code has it. Let \<open>d\<close> be the catalog the store presents. A successful
  \<open>createCategory\<close> returns an id that no category of \<open>d\<close> has, and a successful
  \<open>createProduct\<close> an id that no product of \<open>d\<close> has, provided the random identifier that
  \<open>uniqueId\<close> returns after ten collisions is not such an id: \<open>uniqueId\<close> checks the slug and
  each suffixed candidate against the ids in use and returns that last identifier
  unchecked. Under the same proviso for the two create operations, every mutation that
  starts from a catalog with unique ids in both collections leaves one.
\<close>

theorem created_ids_fresh:
  assumes r: "readCatalog (readTime e) fs = Inr d"
  shows "(createCategory e nameRaw fs = (Inr c, fs1)
            \<and> fallbackUUID e (normalizeName nameRaw) \<notin> cid ` set (categories d)
          \<longrightarrow> cid c \<notin> cid ` set (categories d)
              \<and> (idsUnique d \<longrightarrow> (\<forall>t d'. readCatalog t fs1 = Inr d' \<longrightarrow> idsUnique d')))
       \<and> (createProduct up e inp fs = (Inr p, fs2)
            \<and> fallbackUUID e (normalizeName (in_name inp)) \<notin> pid ` set (products d)
          \<longrightarrow> pid p \<notin> pid ` set (products d)
              \<and> (idsUnique d \<longrightarrow> (\<forall>t d'. readCatalog t fs2 = Inr d' \<longrightarrow> idsUnique d')))
       \<and> (deleteCategory e i fs = (res3, fs3) \<and> idsUnique d
          \<longrightarrow> (\<forall>t d'. readCatalog t fs3 = Inr d' \<longrightarrow> idsUnique d'))
       \<and> (deleteProduct e i fs = (res4, fs4) \<and> idsUnique d
          \<longrightarrow> (\<forall>t d'. readCatalog t fs4 = Inr d' \<longrightarrow> idsUnique d'))"
proof (intro conjI impI allI)
  assume h: "createCategory e nameRaw fs = (Inr c, fs1)
             \<and> fallbackUUID e (normalizeName nameRaw) \<notin> cid ` set (categories d)"
  from createCategory_Inr [OF r conjunct1 [OF h]] freshId_fresh [OF conjunct2 [OF h]]
  show "cid c \<notin> cid ` set (categories d)" by simp
  fix t d' assume "idsUnique d" and "readCatalog t fs1 = Inr d'"
  with h r show "idsUnique d'" by (blast intro: createCategory_keeps_unique)
next
  assume h: "createProduct up e inp fs = (Inr p, fs2)
             \<and> fallbackUUID e (normalizeName (in_name inp)) \<notin> pid ` set (products d)"
  from createProduct_Inr [OF r conjunct1 [OF h]] freshId_fresh [OF conjunct2 [OF h]]
  show "pid p \<notin> pid ` set (products d)" by simp
  fix t d' assume "idsUnique d" and "readCatalog t fs2 = Inr d'"
  with h r show "idsUnique d'" by (blast intro: createProduct_keeps_unique)
next
  fix t d'
  assume "deleteCategory e i fs = (res3, fs3) \<and> idsUnique d" and "readCatalog t fs3 = Inr d'"
  with r show "idsUnique d'" by (blast intro: deleteCategory_keeps_unique)
next
  fix t d'
  assume "deleteProduct e i fs = (res4, fs4) \<and> idsUnique d" and "readCatalog t fs4 = Inr d'"
  with r show "idsUnique d'" by (blast intro: deleteProduct_keeps_unique)
qed

theorem created_ids_fresh_witness:
  "fst (createCategory teaEnv ''Oolong?'' teaFs) =
     Inr \<lparr> cid = ''oolong-a3f1'', cname = ''Oolong?'', ccreatedAt = nowTime teaEnv \<rparr>
   \<and> ''oolong-a3f1'' \<notin> cid ` set (categories teaCatalog)"
proof -
  let ?c = "\<lparr> cid = ''oolong-a3f1'', cname = ''Oolong?'', ccreatedAt = nowTime teaEnv \<rparr>"
  have c: "fst (createCategory teaEnv ''Oolong?'' teaFs) = Inr ?c" by code_simp
  then have c': "createCategory teaEnv ''Oolong?'' teaFs
                 = (Inr ?c, snd (createCategory teaEnv ''Oolong?'' teaFs))"
    by (simp add: prod_eq_iff)
  have f: "fallbackUUID teaEnv (normalizeName ''Oolong?'') \<notin> cid ` set (categories teaCatalog)"
    by code_simp
  note T = created_ids_fresh [OF readCatalog_teaFs, where nameRaw = "''Oolong?''" and c = ?c
      and ?fs1.0 = "snd (createCategory teaEnv ''Oolong?'' teaFs)"]
  from T [THEN conjunct1, THEN mp, OF conjI [OF c' f], THEN conjunct1]
  have "cid ?c \<notin> cid ` set (categories teaCatalog)" .
  then have "''oolong-a3f1'' \<notin> cid ` set (categories teaCatalog)" by simp
  with c show ?thesis by (intro conjI)
qed

text \<open>
  The claim as written fails when the random identifier of the last resort is in use: in
  \<open>crowdedCatalog\<close> the slug \<open>a\<close>, the candidate \<open>a-0000\<close> and a random identifier are ids
  of categories, every suffix drawn is \<open>0000\<close>, and \<open>randomUUID\<close> gives that identifier
  again; \<open>createCategory\<close> succeeds and returns an id that a category already has.
\<close>

theorem createCategory_repeated_uuid_counterexample:
  "readCatalog (readTime crowdedEnv) crowdedFs = Inr crowdedCatalog
   \<and> idsUnique crowdedCatalog
   \<and> fst (createCategory crowdedEnv ''a!'' crowdedFs) =
       Inr \<lparr> cid = ''6f1c2d3e-4b5a-4c7d-8e9f-0a1b2c3d4e5f'', cname = ''a!'',
             ccreatedAt = nowTime crowdedEnv \<rparr>
   \<and> ''6f1c2d3e-4b5a-4c7d-8e9f-0a1b2c3d4e5f'' \<in> cid ` set (categories crowdedCatalog)"
  by code_simp

section \<open>A failed create writes nothing and reports the first violated rule\<close>

text \<open>
  Claim C5. When \<open>createCategory\<close> or \<open>createProduct\<close> raises an error, the file system is
  as it was: no write has happened. When the input violates a rule about the input alone,
  the error is the message of the first such rule in the order of the specification,
  whatever the store holds. When the store presents a catalog \<open>d\<close>, the error is the
  message of the first rule of all that is violated, and the call succeeds when none is.
\<close>

theorem failed_create_writes_nothing:
  "(createCategory e nameRaw fs = (Inl err, fs1) \<longrightarrow> fs1 = fs)
   \<and> (createProduct up e inp fs = (Inl err', fs2) \<longrightarrow> fs2 = fs)
   \<and> (firstViolation (categoryInputRules nameRaw) = Some m1 \<longrightarrow>
        createCategory e nameRaw fs = (Inl (Error m1), fs))
   \<and> (firstViolation (productInputRules up inp) = Some m2 \<longrightarrow>
        createProduct up e inp fs = (Inl (Error m2), fs))
   \<and> (readCatalog (readTime e) fs = Inr d \<longrightarrow>
        (case firstViolation (categoryRules nameRaw d) of
           Some m \<Rightarrow> createCategory e nameRaw fs = (Inl (Error m), fs)
         | None \<Rightarrow> (\<exists>c. fst (createCategory e nameRaw fs) = Inr c))
        \<and> (case firstViolation (productRules up inp d) of
             Some m \<Rightarrow> createProduct up e inp fs = (Inl (Error m), fs)
           | None \<Rightarrow> (\<exists>p. fst (createProduct up e inp fs) = Inr p)))"
  using createCategory_Inl [of e nameRaw fs err fs1] createProduct_Inl [of up e inp fs err' fs2]
    createCategory_rules [of e fs d nameRaw] createProduct_rules [of e fs d up inp]
    createCategory_input_rules [where nameRaw = nameRaw and m = m1 and e = e and fs = fs]
    createProduct_input_rules [where up = up and inp = inp and m = m2 and e = e and fs = fs]
  by blast

theorem failed_create_writes_nothing_witness:
  "createProduct sampleUrlProtocol teaEnv (productInput ''  '' ''http://example.com/a.png'') teaFs
     = (Inl (Error ''Product name is required.''), teaFs)
   \<and> createCategory teaEnv '' green   tea '' teaFs = (Inl (Error ''Category already exists.''), teaFs)"
proof -
  have p: "firstViolation (productRules sampleUrlProtocol
             (productInput ''  '' ''http://example.com/a.png'') teaCatalog)
           = Some ''Product name is required.''" by code_simp
  have c: "firstViolation (categoryRules '' green   tea '' teaCatalog)
           = Some ''Category already exists.''" by code_simp
  note T = failed_create_writes_nothing [where e = teaEnv and fs = teaFs and d = teaCatalog
      and up = sampleUrlProtocol and inp = "productInput ''  '' ''http://example.com/a.png''"
      and nameRaw = "'' green   tea ''", THEN conjunct2, THEN conjunct2, THEN conjunct2,
      THEN conjunct2, THEN mp, OF readCatalog_teaFs, unfolded p c option.case]
  from conjunct2 [OF T] conjunct1 [OF T] show ?thesis by (intro conjI)
qed

section \<open>Deleting a missing id does nothing\<close>

text \<open>
  Claim C6. Whatever catalog \<open>d\<close> the store presents: \<open>deleteCategory\<close> with an id that no
  category of \<open>d\<close> has, and \<open>deleteProduct\<close> with an id that no product of \<open>d\<close> has, return
  normally and leave the file system as it was, the file and the count of writes alike.
\<close>

theorem delete_missing_noop:
  assumes "readCatalog (readTime e) fs = Inr d"
  shows "(i \<notin> cid ` set (categories d) \<longrightarrow> deleteCategory e i fs = (Inr (), fs))
       \<and> (i \<notin> pid ` set (products d) \<longrightarrow> deleteProduct e i fs = (Inr (), fs))"
  using assms
  by (force simp: deleteCategory_def deleteProduct_def Let_def filter_length_eq_iff)

theorem delete_missing_noop_witness:
  "''puerh'' \<notin> cid ` set (categories teaCatalog) \<and> ''matcha'' \<notin> pid ` set (products teaCatalog)
   \<and> deleteCategory teaEnv ''puerh'' teaFs = (Inr (), teaFs)
   \<and> deleteProduct teaEnv ''matcha'' teaFs = (Inr (), teaFs)"
proof -
  have a: "''puerh'' \<notin> cid ` set (categories teaCatalog)" by code_simp
  have b: "''matcha'' \<notin> pid ` set (products teaCatalog)" by code_simp
  from delete_missing_noop [OF readCatalog_teaFs, of "''puerh''", THEN conjunct1, THEN mp, OF a]
  have 1: "deleteCategory teaEnv ''puerh'' teaFs = (Inr (), teaFs)" .
  from delete_missing_noop [OF readCatalog_teaFs, of "''matcha''", THEN conjunct2, THEN mp, OF b]
  have 2: "deleteProduct teaEnv ''matcha'' teaFs = (Inr (), teaFs)" .
  from a b 1 2 show ?thesis by (intro conjI)
qed

section \<open>A name already taken is a conflict\<close>

text \<open>
  Claim C7, as the code has it. Let the store present a catalog \<open>d\<close>, and let the
  normalised new name be valid by itself: not empty and of at most 60 characters. When a
  category of \<open>d\<close> has that name up to case, \<open>createCategory\<close> fails with the error
  "Category already exists." and writes nothing. The length of the new name is checked
  before the catalog is read, so a new name of more than 60 characters fails with the
  error about its length, whatever the catalog holds.
\<close>

theorem createCategory_conflict:
  assumes r: "readCatalog (readTime e) fs = Inr d"
    and n: "normalizeName nameRaw \<noteq> [] \<and> length (normalizeName nameRaw) \<le> 60"
    and x: "\<exists>c \<in> set (categories d). toLowerCase (cname c) = toLowerCase (normalizeName nameRaw)"
  shows "createCategory e nameRaw fs = (Inl (Error ''Category already exists.''), fs)"
proof -
  from x have "list_ex (\<lambda>c. toLowerCase (cname c) = toLowerCase (normalizeName nameRaw)) (categories d)"
    by (simp add: list_ex_iff)
  with r n show ?thesis by (simp add: createCategory_def Let_def)
qed

theorem createCategory_conflict_witness:
  "fst (createCategory teaEnv ''Green Tea'' emptyFs) =
     Inr \<lparr> cid = ''green-tea'', cname = ''Green Tea'', ccreatedAt = nowTime teaEnv \<rparr>
   \<and> createCategory teaEnv ''green tea'' (snd (createCategory teaEnv ''Green Tea'' emptyFs)) =
       (Inl (Error ''Category already exists.''), snd (createCategory teaEnv ''Green Tea'' emptyFs))"
proof -
  let ?c = "\<lparr> cid = ''green-tea'', cname = ''Green Tea'', ccreatedAt = nowTime teaEnv \<rparr>"
  let ?d = "\<lparr> version = 1, updatedAt = nowTime teaEnv, categories = [?c], products = [] \<rparr>"
  let ?fs = "snd (createCategory teaEnv ''Green Tea'' emptyFs)"
  have c: "fst (createCategory teaEnv ''Green Tea'' emptyFs) = Inr ?c" by code_simp
  have r: "readCatalog (readTime teaEnv) ?fs = Inr ?d" by code_simp
  have n: "normalizeName ''green tea'' \<noteq> [] \<and> length (normalizeName ''green tea'') \<le> 60"
    by code_simp
  have x: "\<exists>c \<in> set (categories ?d). toLowerCase (cname c) = toLowerCase (normalizeName ''green tea'')"
    by code_simp
  from c createCategory_conflict [OF r n x] show ?thesis by (intro conjI)
qed

text \<open>
  The claim as written fails when the matching name is too long to be a new name: the
  catalog of \<open>overlongFs\<close> has a category whose name is 61 times the letter a, and
  \<open>createCategory\<close> with that very name fails with the error about the length, not with
  the conflict.
\<close>

theorem createCategory_overlong_counterexample:
  "readCatalog (readTime teaEnv) overlongFs = Inr overlongCatalog
   \<and> overlongCategory \<in> set (categories overlongCatalog)
   \<and> toLowerCase (cname overlongCategory) = toLowerCase (normalizeName overlongName)
   \<and> createCategory teaEnv overlongName overlongFs
       = (Inl (Error ''Category name is too long (max 60 chars).''), overlongFs)"
  by code_simp

section \<open>The boundaries of product validation\<close>

text \<open>
  Claim C8. \<open>createProduct\<close> fails, writing nothing, whenever the trimmed image URL does not
  parse or its protocol is not \<open>https:\<close>, and whenever the normalised name has more than 80
  characters. It succeeds when the store presents a catalog, the name has 1 to 80
  characters, the protocol of the image URL is \<open>https:\<close> and the input is otherwise valid.
\<close>

theorem createProduct_boundaries:
  "(up (trim (in_imageUrl inp)) \<noteq> Some ''https:'' \<longrightarrow>
      (\<exists>m. createProduct up e inp fs = (Inl (Error m), fs)))
   \<and> (80 < length (normalizeName (in_name inp)) \<longrightarrow>
      (\<exists>m. createProduct up e inp fs = (Inl (Error m), fs)))
   \<and> (readCatalog (readTime e) fs = Inr d \<and> otherwiseValid inp d
        \<and> 1 \<le> length (normalizeName (in_name inp)) \<and> length (normalizeName (in_name inp)) \<le> 80
        \<and> up (trim (in_imageUrl inp)) = Some ''https:'' \<longrightarrow>
      (\<exists>p. fst (createProduct up e inp fs) = Inr p \<and> pname p = normalizeName (in_name inp)
           \<and> imageUrl p = trim (in_imageUrl inp)))"
proof (intro conjI impI)
  assume "up (trim (in_imageUrl inp)) \<noteq> Some ''https:''"
  then show "\<exists>m. createProduct up e inp fs = (Inl (Error m), fs)"
    by (cases "up (trim (in_imageUrl inp))") (simp_all add: createProduct_def Let_def)
next
  assume "80 < length (normalizeName (in_name inp))"
  then show "\<exists>m. createProduct up e inp fs = (Inl (Error m), fs)"
    by (simp add: createProduct_def Let_def)
next
  assume "readCatalog (readTime e) fs = Inr d \<and> otherwiseValid inp d
        \<and> 1 \<le> length (normalizeName (in_name inp)) \<and> length (normalizeName (in_name inp)) \<le> 80
        \<and> up (trim (in_imageUrl inp)) = Some ''https:''"
  then show "\<exists>p. fst (createProduct up e inp fs) = Inr p \<and> pname p = normalizeName (in_name inp)
           \<and> imageUrl p = trim (in_imageUrl inp)"
    by (auto simp: createProduct_def Let_def otherwiseValid_def list_ex_cid)
qed

theorem createProduct_boundaries_witness:
  "(\<exists>p. fst (createProduct sampleUrlProtocol teaEnv
             (productInput (replicate 80 (CHR ''a'')) ''https://example.com/a.png'') teaFs) = Inr p)
   \<and> (\<exists>m. createProduct sampleUrlProtocol teaEnv
             (productInput (replicate 80 (CHR ''a'')) ''http://example.com/a.png'') teaFs
           = (Inl (Error m), teaFs))
   \<and> (\<exists>m. createProduct sampleUrlProtocol teaEnv
             (productInput (replicate 201 (CHR ''a'')) ''https://example.com/a.png'') teaFs
           = (Inl (Error m), teaFs))"
proof -
  let ?ok = "productInput (replicate 80 (CHR ''a'')) ''https://example.com/a.png''"
  let ?http = "productInput (replicate 80 (CHR ''a'')) ''http://example.com/a.png''"
  let ?long = "productInput (replicate 201 (CHR ''a'')) ''https://example.com/a.png''"
  have o: "otherwiseValid ?ok teaCatalog" by code_simp
  have n1: "1 \<le> length (normalizeName (in_name ?ok))" by code_simp
  have n2: "length (normalizeName (in_name ?ok)) \<le> 80" by code_simp
  have u: "sampleUrlProtocol (trim (in_imageUrl ?ok)) = Some ''https:''" by code_simp
  have h: "sampleUrlProtocol (trim (in_imageUrl ?http)) \<noteq> Some ''https:''" by code_simp
  have l: "80 < length (normalizeName (in_name ?long))" by code_simp
  note A = createProduct_boundaries [where up = sampleUrlProtocol and e = teaEnv and fs = teaFs
      and d = teaCatalog and inp = ?ok, THEN conjunct2, THEN conjunct2, THEN mp,
      OF conjI [OF readCatalog_teaFs conjI [OF o conjI [OF n1 conjI [OF n2 u]]]]]
  note B = createProduct_boundaries [where up = sampleUrlProtocol and e = teaEnv and fs = teaFs
      and d = teaCatalog and inp = ?http, THEN conjunct1, THEN mp, OF h]
  note C = createProduct_boundaries [where up = sampleUrlProtocol and e = teaEnv and fs = teaFs
      and d = teaCatalog and inp = ?long, THEN conjunct2, THEN conjunct1, THEN mp, OF l]
  from A have 1: "\<exists>p. fst (createProduct sampleUrlProtocol teaEnv ?ok teaFs) = Inr p" by blast
  from 1 B C show ?thesis by (intro conjI)
qed

section \<open>Facts about sorting\<close>

lemma codeUnitCompare_swap: "(codeUnitCompare a b < 0) = (0 < codeUnitCompare b a)"
  by (induction a b rule: codeUnitCompare.induct) auto

lemma codeUnitCompare_trans:
  "codeUnitCompare a b \<le> 0 \<Longrightarrow> codeUnitCompare b c \<le> 0 \<Longrightarrow> codeUnitCompare a c \<le> 0"
proof (induction a b arbitrary: c rule: codeUnitCompare.induct)
  case 1
  then show ?case by simp
next
  case (2 y ys)
  then show ?case by (cases c) simp_all
next
  case (3 x xs)
  then show ?case by simp
next
  case (4 x xs y ys)
  show ?case
  proof (cases c)
    case Nil
    with "4.prems" show ?thesis by simp
  next
    case (Cons z zs)
    from "4.prems"(1) have xy: "\<not> (of_char y :: nat) < of_char x"
      by (simp split: if_splits)
    from "4.prems"(2) Cons have yz: "\<not> (of_char z :: nat) < of_char y"
      by (simp split: if_splits)
    show ?thesis
    proof (cases "(of_char x :: nat) < of_char z")
      case True
      with Cons show ?thesis by simp
    next
      case False
      with xy yz have e: "(of_char x :: nat) = of_char y" "(of_char y :: nat) = of_char z"
        by linarith+
      from e "4.prems"(1) have a: "codeUnitCompare xs ys \<le> 0" by simp
      from e "4.prems"(2) Cons have b: "codeUnitCompare ys zs \<le> 0" by simp
      from e have "\<not> (of_char x :: nat) < of_char y" "\<not> (of_char y :: nat) < of_char x"
        by simp_all
      then have "codeUnitCompare xs zs \<le> 0" using a b by (rule "4.IH")
      with e Cons show ?thesis by simp
    qed
  qed
qed

lemma collationLaws_codeUnitCompare: "collationLaws codeUnitCompare"
  unfolding collationLaws_def
  using codeUnitCompare_swap codeUnitCompare_trans by blast

lemma set_insertJS: "set (insertJS f x xs) = insert x (set xs)"
  by (induction xs) auto

lemma mset_insertJS: "mset (insertJS f x xs) = add_mset x (mset xs)"
  by (induction xs) auto

lemma mset_sortJS: "mset (sortJS f xs) = mset xs"
  by (induction xs) (simp_all add: sortJS_def mset_insertJS)

lemma sorted_insertJS:
  assumes tot: "\<And>a b. f a b \<le> 0 \<or> f b a \<le> 0"
    and tr: "\<And>a b c. f a b \<le> 0 \<Longrightarrow> f b c \<le> 0 \<Longrightarrow> f a c \<le> 0"
    and s: "sorted_wrt (\<lambda>a b. f a b \<le> 0) xs"
  shows "sorted_wrt (\<lambda>a b. f a b \<le> 0) (insertJS f x xs)"
  using s
proof (induction xs)
  case Nil
  show ?case by simp
next
  case (Cons y ys)
  show ?case
  proof (cases "f x y \<le> 0")
    case True
    have "\<forall>z\<in>set ys. f x z \<le> 0"
    proof
      fix z assume "z \<in> set ys"
      with Cons.prems have "f y z \<le> 0" by simp
      with True show "f x z \<le> 0" by (rule tr)
    qed
    with True Cons.prems show ?thesis by simp
  next
    case False
    with tot [of x y] have "f y x \<le> 0" by simp
    with False Cons show ?thesis by (simp add: set_insertJS)
  qed
qed

lemma sorted_sortJS:
  assumes tot: "\<And>a b. f a b \<le> 0 \<or> f b a \<le> 0"
    and tr: "\<And>a b c. f a b \<le> 0 \<Longrightarrow> f b c \<le> 0 \<Longrightarrow> f a c \<le> 0"
  shows "sorted_wrt (\<lambda>a b. f a b \<le> 0) (sortJS f xs)"
proof (induction xs)
  case Nil
  show ?case by (simp add: sortJS_def)
next
  case (Cons x xs)
  have "sorted_wrt (\<lambda>a b. f a b \<le> 0) (insertJS f x (sortJS f xs))"
    using tot tr Cons.IH by (rule sorted_insertJS)
  then show ?case by (simp add: sortJS_def)
qed

lemma collation_total:
  assumes "collationLaws lc"
  shows "lc a b \<le> 0 \<or> lc b a \<le> 0"
proof -
  from assms have "(lc b a < 0) = (0 < lc a b)" unfolding collationLaws_def by blast
  then show ?thesis by linarith
qed

lemma collation_trans:
  "collationLaws lc \<Longrightarrow> lc a b \<le> 0 \<Longrightarrow> lc b c \<le> 0 \<Longrightarrow> lc a c \<le> 0"
  unfolding collationLaws_def by blast

lemma set_sortJS: "set (sortJS f xs) = set xs"
  using mset_sortJS [of f xs] by (metis set_mset_mset)

lemma sorted_wrt_later_first:
  assumes s: "sorted_wrt (\<lambda>a b. g b a \<le> (0::int)) ps"
    and irr: "\<And>p. \<not> 0 < g p p"
    and p1: "p1 \<in> set ps" and p2: "p2 \<in> set ps"
    and lt: "0 < g p2 p1"
  shows "\<exists>i j. i < j \<and> j < length ps \<and> ps ! i = p2 \<and> ps ! j = p1"
proof -
  from p1 obtain a where a: "a < length ps" "ps ! a = p1" by (auto simp: in_set_conv_nth)
  from p2 obtain b where b: "b < length ps" "ps ! b = p2" by (auto simp: in_set_conv_nth)
  have "\<not> a < b"
  proof
    assume "a < b"
    with s b(1) have "g (ps ! b) (ps ! a) \<le> 0" by (simp add: sorted_wrt_iff_nth_less)
    with a b lt show False by simp
  qed
  moreover have "a \<noteq> b"
  proof
    assume "a = b"
    with a b have "p1 = p2" by simp
    with lt irr [of p2] show False by simp
  qed
  ultimately have "b < a" by simp
  with a b show ?thesis by blast
qed

lemma collation_irrefl: "collationLaws lc \<Longrightarrow> \<not> 0 < lc a a"
proof
  assume L: "collationLaws lc" and "0 < lc a a"
  from L have "(lc a a < 0) = (0 < lc a a)" unfolding collationLaws_def by blast
  with \<open>0 < lc a a\<close> show False by simp
qed

lemma collation_swap: "collationLaws lc \<Longrightarrow> lc a b < 0 \<Longrightarrow> 0 < lc b a"
  unfolding collationLaws_def by blast

section \<open>The public catalog is sorted and filtered\<close>

text \<open>
  Claim C9. Let the store present a catalog \<open>d\<close> and let the collation satisfy its laws.
  \<open>getPublicCatalog\<close> returns the categories of \<open>d\<close>, each as often as \<open>d\<close> has it, in
  ascending order of their names under the collation; it returns exactly the products of
  \<open>d\<close> whose \<open>categoryId\<close> is the id of a category of \<open>d\<close>, in descending order of their
  creation times under the collation, so that of two returned products the one whose
  creation time collates later stands first; and it leaves the file system as it was.
\<close>

theorem getPublicCatalog_sorted:
  assumes r: "readCatalog (readTime e) fs = Inr d"
    and L: "collationLaws lc"
  shows "\<exists>cs ps. getPublicCatalog lc e fs = (Inr (cs, ps), fs)
           \<and> mset cs = mset (categories d)
           \<and> sorted_wrt (\<lambda>a b. lc (cname a) (cname b) \<le> 0) cs
           \<and> mset ps = mset (filter (\<lambda>p. categoryId p \<in> cid ` set (categories d)) (products d))
           \<and> sorted_wrt (\<lambda>a b. lc (pcreatedAt b) (pcreatedAt a) \<le> 0) ps
           \<and> (\<forall>p1 p2. p1 \<in> set ps \<and> p2 \<in> set ps \<and> lc (pcreatedAt p1) (pcreatedAt p2) < 0
                 \<longrightarrow> (\<exists>i j. i < j \<and> j < length ps \<and> ps ! i = p2 \<and> ps ! j = p1))"
proof -
  let ?cs = "sortJS (\<lambda>a b. lc (cname a) (cname b)) (categories d)"
  let ?ps = "sortJS (\<lambda>a b. lc (pcreatedAt b) (pcreatedAt a))
               (filter (\<lambda>p. categoryId p \<in> cid ` set (categories d)) (products d))"
  have g: "getPublicCatalog lc e fs = (Inr (?cs, ?ps), fs)"
    using r by (simp add: getPublicCatalog_def Let_def set_sortJS)
  have sc: "sorted_wrt (\<lambda>a b. lc (cname a) (cname b) \<le> 0) ?cs"
    by (rule sorted_sortJS) (rule collation_total [OF L], erule (1) collation_trans [OF L])
  have sp: "sorted_wrt (\<lambda>a b. lc (pcreatedAt b) (pcreatedAt a) \<le> 0) ?ps"
    by (rule sorted_sortJS) (rule collation_total [OF L], erule (1) collation_trans [OF L])
  have later: "\<exists>i j. i < j \<and> j < length ?ps \<and> ?ps ! i = p2 \<and> ?ps ! j = p1"
    if "p1 \<in> set ?ps \<and> p2 \<in> set ?ps \<and> lc (pcreatedAt p1) (pcreatedAt p2) < 0" for p1 p2
  proof -
    from that have "0 < lc (pcreatedAt p2) (pcreatedAt p1)" by (blast intro: collation_swap [OF L])
    with sp that show ?thesis
      using sorted_wrt_later_first [of "\<lambda>a b. lc (pcreatedAt a) (pcreatedAt b)" ?ps p1 p2]
        collation_irrefl [OF L] by blast
  qed
  from g sc sp later show ?thesis by (simp add: mset_sortJS del: mset_filter)
qed

theorem getPublicCatalog_sorted_witness:
  "getPublicCatalog codeUnitCompare teaEnv teaFs
     = (Inr ([greenTea, oolong], [sencha, tieGuanYin]), teaFs)
   \<and> codeUnitCompare (pcreatedAt tieGuanYin) (pcreatedAt sencha) < 0
   \<and> sorted_wrt (\<lambda>a b. codeUnitCompare (cname a) (cname b) \<le> 0) [greenTea, oolong]
   \<and> sorted_wrt (\<lambda>a b. codeUnitCompare (pcreatedAt b) (pcreatedAt a) \<le> 0) [sencha, tieGuanYin]"
proof -
  have g: "getPublicCatalog codeUnitCompare teaEnv teaFs
             = (Inr ([greenTea, oolong], [sencha, tieGuanYin]), teaFs)" by code_simp
  have t: "codeUnitCompare (pcreatedAt tieGuanYin) (pcreatedAt sencha) < 0" by code_simp
  from getPublicCatalog_sorted [OF readCatalog_teaFs collationLaws_codeUnitCompare]
  obtain cs ps where o: "getPublicCatalog codeUnitCompare teaEnv teaFs = (Inr (cs, ps), teaFs)"
    and sc: "sorted_wrt (\<lambda>a b. codeUnitCompare (cname a) (cname b) \<le> 0) cs"
    and sp: "sorted_wrt (\<lambda>a b. codeUnitCompare (pcreatedAt b) (pcreatedAt a) \<le> 0) ps"
    by blast
  from o g have "cs = [greenTea, oolong]" and "ps = [sencha, tieGuanYin]" by simp_all
  with sc sp have "sorted_wrt (\<lambda>a b. codeUnitCompare (cname a) (cname b) \<le> 0) [greenTea, oolong]"
    and "sorted_wrt (\<lambda>a b. codeUnitCompare (pcreatedAt b) (pcreatedAt a) \<le> 0) [sencha, tieGuanYin]"
    by (simp_all only:)
  with g t show ?thesis by (intro conjI)
qed

section \<open>Facts about session authentication\<close>

lemma timingSafeEqual_eq: "timingSafeEqual a b = (a = b)"
  by (auto simp: timingSafeEqual_def)

lemma isBackofficeAuthed_spec:
  assumes "sessionSecret processEnv = Inr secret"
  shows "isBackofficeAuthed lib processEnv now store =
           Inr (specAuthenticated lib secret now (store COOKIE_NAME))"
proof (cases "store COOKIE_NAME")
  case None
  then show ?thesis by (simp add: isBackofficeAuthed_def specAuthenticated_def)
next
  case (Some v)
  show ?thesis
  proof (cases "\<exists>data sigB64. splitOn (CHR ''.'') v = [data, sigB64]")
    case False
    with Some show ?thesis
      by (auto simp: isBackofficeAuthed_def specAuthenticated_def split: list.splits)
  next
    case True
    then obtain data sigB64 where sp: "splitOn (CHR ''.'') v = [data, sigB64]" by blast
    then have ne: "v \<noteq> []" by auto
    show ?thesis
    proof (cases "jsonParse lib (utf8Decode lib (base64urlDecode lib data))")
      case None
      with Some sp ne assms show ?thesis
        by (simp add: isBackofficeAuthed_def specAuthenticated_def sign_def decodePayload_def
            timingSafeEqual_eq)
    next
      case (Some parsed)
      with \<open>store COOKIE_NAME = Some v\<close> sp ne assms show ?thesis
        by (cases parsed)
           (auto simp: isBackofficeAuthed_def specAuthenticated_def sign_def decodePayload_def
              timingSafeEqual_eq expNotAfter_def Let_def
              split: option.splits json.splits)
    qed
  qed
qed

lemma splitOn_no_sep: "d \<notin> set s \<Longrightarrow> splitOn d s = [s]"
  by (induction s) auto

lemma splitOn_one_sep:
  "d \<notin> set a \<Longrightarrow> d \<notin> set b \<Longrightarrow> splitOn d (a @ d # b) = [a, b]"
  by (induction a) (auto simp: splitOn_no_sep)

lemma length_splitOn: "length (splitOn d s) = Suc (length (filter (\<lambda>c. c = d) s))"
  by (induction s) (auto split: list.splits)

section \<open>When a session is authenticated\<close>

text \<open>
  Claim C4. With a signing secret configured, as the configuration requires,
  \<open>isBackofficeAuthed\<close> never raises: it returns true exactly when the cookie is present,
  its value has exactly two parts around a dot, the decoded second part is the HMAC of the
  first part under the secret, the first part decodes to an object with a number \<open>exp\<close>,
  and \<open>exp\<close> is after the current time, and false in every other case. In particular it
  returns false for a token whose \<open>exp\<close> is the current time less one; and, whatever the
  time and the expiry, for a token made of a signed payload with a single byte changed
  and the signature of the unchanged payload, given that the HMAC tells the two payloads
  apart.
\<close>

theorem isBackofficeAuthed_iff:
  assumes k: "sessionSecret processEnv = Inr secret"
  shows "isBackofficeAuthed lib processEnv now store =
           Inr (specAuthenticated lib secret now (store COOKIE_NAME))
       \<and> (splitOn (CHR ''.'') token = [data, sigText]
            \<and> jsonParse lib (utf8Decode lib (base64urlDecode lib data)) = Some (JObj members)
            \<and> map_of (rev members) ''exp'' = Some (JNum (of_int (now - 1)))
          \<longrightarrow> isBackofficeAuthed lib processEnv now (requestWith token) = Inr False)
       \<and> (base64urlDecode lib signature = hmacSha256 lib secret payload
            \<and> singleByteFlipped payload tampered
            \<and> hmacSha256 lib secret tampered \<noteq> hmacSha256 lib secret payload
          \<longrightarrow> isBackofficeAuthed lib processEnv now (requestWith (tampered @ ''.'' @ signature))
                = Inr False)"
proof (intro conjI impI)
  show "isBackofficeAuthed lib processEnv now store =
           Inr (specAuthenticated lib secret now (store COOKIE_NAME))"
    using k by (rule isBackofficeAuthed_spec)
next
  assume h: "splitOn (CHR ''.'') token = [data, sigText]
            \<and> jsonParse lib (utf8Decode lib (base64urlDecode lib data)) = Some (JObj members)
            \<and> map_of (rev members) ''exp'' = Some (JNum (of_int (now - 1)))"
  have "\<not> (of_int now :: rat) < of_int (now - 1)" by simp
  with h have "\<not> specAuthenticated lib secret now (Some token)"
    by (simp add: specAuthenticated_def)
  with isBackofficeAuthed_spec [OF k, of lib now "requestWith token"]
  show "isBackofficeAuthed lib processEnv now (requestWith token) = Inr False"
    by (simp add: requestWith_def)
next
  assume h: "base64urlDecode lib signature = hmacSha256 lib secret payload
            \<and> singleByteFlipped payload tampered
            \<and> hmacSha256 lib secret tampered \<noteq> hmacSha256 lib secret payload"
  have "\<not> specAuthenticated lib secret now (Some (tampered @ ''.'' @ signature))"
  proof (cases "CHR ''.'' \<notin> set tampered \<and> CHR ''.'' \<notin> set signature")
    case True
    then have "splitOn (CHR ''.'') (tampered @ ''.'' @ signature) = [tampered, signature]"
      using splitOn_one_sep [of "CHR ''.''" tampered signature] by simp
    with h show ?thesis by (auto simp: specAuthenticated_def)
  next
    case False
    then have "filter (\<lambda>c. c = CHR ''.'') tampered \<noteq> [] \<or> filter (\<lambda>c. c = CHR ''.'') signature \<noteq> []"
      by (auto simp: filter_empty_conv)
    then have "length (splitOn (CHR ''.'') (tampered @ ''.'' @ signature)) \<noteq> 2"
      by (auto simp: length_splitOn)
    then show ?thesis
      by (auto simp: specAuthenticated_def split: list.splits)
  qed
  with isBackofficeAuthed_spec [OF k, of lib now "requestWith (tampered @ ''.'' @ signature)"]
  show "isBackofficeAuthed lib processEnv now (requestWith (tampered @ ''.'' @ signature)) = Inr False"
    by (simp add: requestWith_def)
qed

theorem isBackofficeAuthed_iff_witness:
  "isBackofficeAuthed samplePlatform sampleProcessEnv 1767225600000
       (requestWith (sampleData @ ''.'' @ sampleSigText)) = Inr True
   \<and> isBackofficeAuthed samplePlatform sampleProcessEnv 1769817600001
       (requestWith (sampleData @ ''.'' @ sampleSigText)) = Inr False
   \<and> isBackofficeAuthed samplePlatform sampleProcessEnv 1767225600000
       (requestWith (forgedData @ ''.'' @ sampleSigText)) = Inr False
   \<and> isBackofficeAuthed samplePlatform sampleProcessEnv 1767225600000 noCookies = Inr False"
proof -
  have a: "specAuthenticated samplePlatform sampleSecret 1767225600000
             (requestWith (sampleData @ ''.'' @ sampleSigText) COOKIE_NAME) = True" by code_simp
  have d: "specAuthenticated samplePlatform sampleSecret 1767225600000 (noCookies COOKIE_NAME)
             = False"
    by code_simp
  have e: "splitOn (CHR ''.'') (sampleData @ ''.'' @ sampleSigText) = [sampleData, sampleSigText]
           \<and> jsonParse samplePlatform
                (utf8Decode samplePlatform (base64urlDecode samplePlatform sampleData))
               = Some (JObj [(''exp'', JNum 1769817600000)])
           \<and> map_of (rev [(''exp'', JNum 1769817600000)]) ''exp''
               = Some (JNum (of_int (1769817600001 - 1)))"
    by code_simp
  have t: "base64urlDecode samplePlatform sampleSigText
             = hmacSha256 samplePlatform sampleSecret sampleData
           \<and> singleByteFlipped sampleData forgedData
           \<and> hmacSha256 samplePlatform sampleSecret forgedData
               \<noteq> hmacSha256 samplePlatform sampleSecret sampleData"
    by code_simp
  note s = sessionSecret_sample
  note 1 = isBackofficeAuthed_iff [OF s, where lib = samplePlatform and now = 1767225600000
      and store = "requestWith (sampleData @ ''.'' @ sampleSigText)",
      THEN conjunct1, unfolded a]
  note 2 = isBackofficeAuthed_iff [OF s, where lib = samplePlatform and now = 1769817600001
      and token = "sampleData @ ''.'' @ sampleSigText" and data = sampleData
      and sigText = sampleSigText and members = "[(''exp'', JNum 1769817600000)]",
      THEN conjunct2, THEN conjunct1, THEN mp, OF e]
  note 3 = isBackofficeAuthed_iff [OF s, where lib = samplePlatform and now = 1767225600000
      and signature = sampleSigText and payload = sampleData and tampered = forgedData,
      THEN conjunct2, THEN conjunct2, THEN mp, OF t]
  note 4 = isBackofficeAuthed_iff [OF s, where lib = samplePlatform and now = 1767225600000
      and store = noCookies, THEN conjunct1, unfolded d]
  from 1 2 3 4 show ?thesis by (intro conjI)
qed

text \<open>
  With no secret configured the configuration error of \<open>sessionSecret\<close> comes through on a
  cookie value of two parts: the fatal configuration error of the specification.
\<close>

lemma isBackofficeAuthed_unconfigured:
  "isBackofficeAuthed samplePlatform noProcessEnv 1767225600000
       (requestWith (sampleData @ ''.'' @ sampleSigText))
     = Inl (Error ''Missing required env var: BACKOFFICE_PASSWORD'')"
  by code_simp

section \<open>A session that was issued is accepted until it expires\<close>

text \<open>
  Claim C10. With a signing secret configured and a platform whose encodings round-trip
  on the payload and the signature, \<open>setBackofficeSessionCookie\<close> at the time \<open>t0\<close> sets
  the session cookie with the expiry \<open>t0\<close> plus 30 days, and \<open>isBackofficeAuthed\<close> with the
  same configuration accepts the value of that cookie at every time before the expiry.
\<close>

theorem session_round_trip:
  assumes k: "sessionSecret processEnv = Inr secret"
    and laws: "roundTripLaws lib secret (of_int (t0 + SESSION_TTL_MS))"
    and before: "t1 < t0 + SESSION_TTL_MS"
  shows "\<exists>c. setBackofficeSessionCookie lib processEnv t0 = Inr (COOKIE_NAME, c)
             \<and> expires c = t0 + SESSION_TTL_MS
             \<and> isBackofficeAuthed lib processEnv t1 (requestWith (cvalue c)) = Inr True"
proof -
  let ?x = "of_int (t0 + SESSION_TTL_MS) :: rat"
  let ?text = "jsonStringify lib (JObj [(''exp'', JNum ?x)])"
  let ?data = "base64urlEncode lib (utf8Encode lib ?text)"
  let ?sig = "hmacSha256 lib secret ?data"
  let ?v = "?data @ ''.'' @ base64urlEncode lib ?sig"
  let ?c = "\<lparr> cvalue = ?v, httpOnly = True, sameSite = ''strict'',
              secure = (processEnv ''NODE_ENV'' = Some ''production''),
              path = ''/backoffice'', expires = t0 + SESSION_TTL_MS \<rparr>"
  from k have s: "setBackofficeSessionCookie lib processEnv t0 = Inr (COOKIE_NAME, ?c)"
    by (simp add: setBackofficeSessionCookie_def Let_def sign_def encodePayload_def)
  from laws have l1: "base64urlDecode lib ?data = utf8Encode lib ?text"
    and l2: "utf8Decode lib (utf8Encode lib ?text) = ?text"
    and l3: "jsonParse lib ?text = Some (JObj [(''exp'', JNum ?x)])"
    and l4: "base64urlDecode lib (base64urlEncode lib ?sig) = ?sig"
    and l5: "CHR ''.'' \<notin> set ?data"
    and l6: "CHR ''.'' \<notin> set (base64urlEncode lib ?sig)"
    by (simp_all add: roundTripLaws_def Let_def)
  from l5 l6 have sp: "splitOn (CHR ''.'') ?v = [?data, base64urlEncode lib ?sig]"
    using splitOn_one_sep [of "CHR ''.''" ?data "base64urlEncode lib ?sig"] by simp
  from before have "(of_int t1 :: rat) < ?x" by (simp only: of_int_less_iff)
  with sp l1 l2 l3 l4 have "specAuthenticated lib secret t1 (Some ?v)"
    by (simp add: specAuthenticated_def)
  with isBackofficeAuthed_spec [OF k, of lib t1 "requestWith ?v"]
  have "isBackofficeAuthed lib processEnv t1 (requestWith ?v) = Inr True"
    by (simp add: requestWith_def)
  then have a: "isBackofficeAuthed lib processEnv t1 (requestWith (cvalue ?c)) = Inr True"
    by (simp only: cookie.select_convs)
  have e: "expires ?c = t0 + SESSION_TTL_MS" by (simp only: cookie.select_convs)
  from s e a show ?thesis by blast
qed

theorem session_round_trip_witness:
  "setBackofficeSessionCookie samplePlatform sampleProcessEnv 1767225600000 =
     Inr (COOKIE_NAME,
          \<lparr> cvalue = sampleData @ ''.'' @ sampleSigText, httpOnly = True, sameSite = ''strict'',
            secure = False, path = ''/backoffice'', expires = 1769817600000 \<rparr>)
   \<and> isBackofficeAuthed samplePlatform sampleProcessEnv 1769817599999
       (requestWith (sampleData @ ''.'' @ sampleSigText)) = Inr True"
proof -
  let ?c = "\<lparr> cvalue = sampleData @ ''.'' @ sampleSigText, httpOnly = True, sameSite = ''strict'',
            secure = False, path = ''/backoffice'', expires = 1769817600000 \<rparr>"
  have l: "roundTripLaws samplePlatform sampleSecret (of_int (1767225600000 + SESSION_TTL_MS))"
    by code_simp
  have b: "(1769817599999 :: int) < 1767225600000 + SESSION_TTL_MS" by code_simp
  have c: "setBackofficeSessionCookie samplePlatform sampleProcessEnv 1767225600000 =
     Inr (COOKIE_NAME, ?c)" by code_simp
  from session_round_trip [OF sessionSecret_sample l b]
  obtain c' where s: "setBackofficeSessionCookie samplePlatform sampleProcessEnv 1767225600000
                       = Inr (COOKIE_NAME, c')"
    and a: "isBackofficeAuthed samplePlatform sampleProcessEnv 1769817599999
              (requestWith (cvalue c')) = Inr True"
    by blast
  from s c have "c' = ?c" by simp
  with a have "isBackofficeAuthed samplePlatform sampleProcessEnv 1769817599999
              (requestWith (sampleData @ ''.'' @ sampleSigText)) = Inr True"
    by simp
  with c show ?thesis by (intro conjI)
qed

end
